theory Spec2Isabelle
  imports Complex_Main "HOL-Library.List_Lexorder" "HOL-Library.Char_ord"
begin

text \<open>
  A shallow embedding of the recruitment-funnel pipeline: the experiment evaluator of
  \<open>ab_testing.py\<close> (intervention simulation, significance test, power analysis, test
  duration), the feature engineering of \<open>feature_engineering.py\<close> (target labels,
  feature encoding, preparation for modelling) and the resampling step of
  \<open>ml_model.py\<close>. Python integers are \<open>int\<close>, floats are reals with the IEEE special
  values (exact reals in the statistics and the feature columns, rounded to binary64
  in the quotient of \<open>recommend_test_duration\<close>, whose ceiling depends on the
  rounding), exceptions are values of a sum type, and data frames are objects on a
  heap. The definitions come first, the theorems follow.
\<close>

section \<open>Values shared by the embedding\<close>

text \<open>
  The exceptions the modelled Python code can raise. \<open>ZeroDivisionError\<close> is what
  Python's own \<open>/\<close> raises on \<open>int\<close> and \<open>float\<close> operands; \<open>ValueError\<close> is raised
  by \<open>int(nan)\<close>, by \<open>scipy.stats.chi2_contingency\<close>, by \<open>DataFrame.sample\<close> and by
  \<open>LabelEncoder.transform\<close>; \<open>KeyError\<close> by a missing column; \<open>TypeError\<close> by
  arithmetic on a column of strings; \<open>IndexError\<close> by a row position out of range;
  \<open>OverflowError\<close> by \<open>int(inf)\<close>, by the conversion of an integer that is too large
  for a float and by an integer quotient that is too large for a float.
\<close>

datatype py_error =
  ZeroDivisionError | ValueError | KeyError | TypeError | IndexError | OverflowError

text \<open>
  A \<open>float64\<close> value. The arithmetic below is exact on the finite values (no
  rounding); rounding to binary64 is \<open>float64_round\<close> further down, used where a result
  depends on it. The IEEE special values that steer the control flow of the code
  (\<open>nan\<close> from an empty mean, \<open>-inf\<close> from \<open>log1p(-1)\<close>, \<open>inf\<close> from a numpy division by
  zero) are kept. Signed zeros are not distinguished.
\<close>

datatype fl = Fin real | NaN | PInf | NInf

fun fl_neg :: "fl \<Rightarrow> fl" where
  "fl_neg (Fin a) = Fin (- a)"
| "fl_neg NaN = NaN"
| "fl_neg PInf = NInf"
| "fl_neg NInf = PInf"

fun fl_add :: "fl \<Rightarrow> fl \<Rightarrow> fl" where
  "fl_add (Fin a) (Fin b) = Fin (a + b)"
| "fl_add NaN _ = NaN"
| "fl_add _ NaN = NaN"
| "fl_add PInf NInf = NaN"
| "fl_add NInf PInf = NaN"
| "fl_add PInf _ = PInf"
| "fl_add _ PInf = PInf"
| "fl_add NInf _ = NInf"
| "fl_add _ NInf = NInf"

definition fl_sub :: "fl \<Rightarrow> fl \<Rightarrow> fl" where
  "fl_sub a b = fl_add a (fl_neg b)"

text \<open>The sign of a float as numpy's \<open>sign\<close> gives it: \<open>-1\<close>, \<open>0\<close>, \<open>1\<close> or \<open>nan\<close>.\<close>

fun fl_sign :: "fl \<Rightarrow> fl" where
  "fl_sign (Fin a) = Fin (sgn a)"
| "fl_sign NaN = NaN"
| "fl_sign PInf = Fin 1"
| "fl_sign NInf = Fin (- 1)"

fun fl_abs :: "fl \<Rightarrow> fl" where
  "fl_abs (Fin a) = Fin \<bar>a\<bar>"
| "fl_abs NaN = NaN"
| "fl_abs PInf = PInf"
| "fl_abs NInf = PInf"

fun fl_mul :: "fl \<Rightarrow> fl \<Rightarrow> fl" where
  "fl_mul (Fin a) (Fin b) = Fin (a * b)"
| "fl_mul NaN _ = NaN"
| "fl_mul _ NaN = NaN"
| "fl_mul (Fin a) b = (if a = 0 then NaN else if 0 < a then b else fl_neg b)"
| "fl_mul a (Fin b) = (if b = 0 then NaN else if 0 < b then a else fl_neg a)"
| "fl_mul PInf b = b"
| "fl_mul NInf b = fl_neg b"

text \<open>
  Division of numpy floats: no exception, \<open>x / 0\<close> is \<open>nan\<close> for \<open>x = 0\<close> and an
  infinity otherwise; \<open>inf / inf\<close> is \<open>nan\<close>, a finite value over an infinity is \<open>0\<close>.
\<close>

fun fl_div :: "fl \<Rightarrow> fl \<Rightarrow> fl" where
  "fl_div (Fin a) (Fin b) =
     (if b = 0 then (if a = 0 then NaN else if 0 < a then PInf else NInf) else Fin (a / b))"
| "fl_div NaN _ = NaN"
| "fl_div _ NaN = NaN"
| "fl_div (Fin a) _ = Fin 0"
| "fl_div PInf (Fin b) = (if 0 \<le> b then PInf else NInf)"
| "fl_div NInf (Fin b) = (if 0 \<le> b then NInf else PInf)"
| "fl_div _ _ = NaN"

text \<open>Comparison of floats: every comparison with \<open>nan\<close> is false.\<close>

fun fl_less :: "fl \<Rightarrow> fl \<Rightarrow> bool" where
  "fl_less (Fin a) (Fin b) = (a < b)"
| "fl_less NaN _ = False"
| "fl_less _ NaN = False"
| "fl_less NInf NInf = False"
| "fl_less NInf _ = True"
| "fl_less _ NInf = False"
| "fl_less PInf _ = False"
| "fl_less _ PInf = True"

text \<open>numpy's \<open>minimum\<close>: the smaller operand, \<open>nan\<close> if either is \<open>nan\<close>.\<close>

fun np_minimum :: "fl \<Rightarrow> fl \<Rightarrow> fl" where
  "np_minimum NaN _ = NaN"
| "np_minimum _ NaN = NaN"
| "np_minimum a b = (if fl_less b a then b else a)"

text \<open>Python's built-in \<open>min(a, b)\<close>: \<open>b\<close> if \<open>b < a\<close>, else \<open>a\<close> (so \<open>min(nan, 1.0)\<close> is \<open>nan\<close>).\<close>

definition py_min :: "fl \<Rightarrow> fl \<Rightarrow> fl" where
  "py_min a b = (if fl_less b a then b else a)"

text \<open>Python's \<open>/\<close> on \<open>int\<close> or \<open>float\<close> operands raises on a zero divisor.\<close>

definition true_div :: "real \<Rightarrow> real \<Rightarrow> py_error + real" where
  "true_div a b = (if b = 0 then Inl ZeroDivisionError else Inr (a / b))"

text \<open>\<open>int(x)\<close> of a float truncates towards zero; it raises \<open>ValueError\<close> on \<open>nan\<close> and
  \<open>OverflowError\<close> on the infinities.\<close>

fun py_int :: "fl \<Rightarrow> py_error + int" where
  "py_int (Fin a) = Inr (if 0 \<le> a then \<lfloor>a\<rfloor> else \<lceil>a\<rceil>)"
| "py_int NaN = Inl ValueError"
| "py_int PInf = Inl OverflowError"
| "py_int NInf = Inl OverflowError"

text \<open>\<open>np.ceil\<close> of a float: the least integer not below it, as a float; \<open>nan\<close> and the
  infinities are returned as they are.\<close>

fun np_ceil :: "fl \<Rightarrow> fl" where
  "np_ceil (Fin a) = Fin (of_int \<lceil>a\<rceil>)"
| "np_ceil NaN = NaN"
| "np_ceil PInf = PInf"
| "np_ceil NInf = NInf"

subsection \<open>Rounding to binary64\<close>

text \<open>
  Rounding of an integer-scaled significand: to the nearest integer, a tie to the even
  one.
\<close>

definition round_half_even :: "real \<Rightarrow> int" where
  "round_half_even y =
     (let f = \<lfloor>y\<rfloor>; r = y - of_int f
      in if r < 1 / 2 then f else if 1 / 2 < r then f + 1 else if even f then f else f + 1)"

text \<open>
  The binary64 value of a real number under IEEE 754 round-to-nearest-even. A number
  of magnitude in \<open>[2\<^sup>k, 2\<^sup>k\<^sup>+\<^sup>1)\<close> is rounded to a multiple of \<open>2\<^sup>k\<^sup>-\<^sup>5\<^sup>2\<close> (a significand of
  53 bits); below the least normal number \<open>2\<^sup>-\<^sup>1\<^sup>0\<^sup>2\<^sup>2\<close> the spacing stays \<open>2\<^sup>-\<^sup>1\<^sup>0\<^sup>7\<^sup>4\<close>
  (subnormal numbers); a result of magnitude \<open>2\<^sup>1\<^sup>0\<^sup>2\<^sup>4\<close> or more is an infinity.
\<close>

definition float64_round :: "real \<Rightarrow> fl" where
  "float64_round x =
     (if x = 0 then Fin 0
      else let e = max (\<lfloor>log 2 \<bar>x\<bar>\<rfloor> - 52) (- 1074);
               y = of_int (round_half_even (x / 2 powr of_int e)) * 2 powr of_int e
           in if 2 ^ 1024 \<le> \<bar>y\<bar> then (if 0 < x then PInf else NInf) else Fin y)"

text \<open>
  Division of two floats in binary64, without exception: the special cases are those
  of \<open>fl_div\<close>, the quotient of two finite numbers is rounded.
\<close>

fun ieee_div :: "fl \<Rightarrow> fl \<Rightarrow> fl" where
  "ieee_div (Fin a) (Fin b) =
     (if b = 0 then (if a = 0 then NaN else if 0 < a then PInf else NInf)
      else float64_round (a / b))"
| "ieee_div NaN b = fl_div NaN b"
| "ieee_div PInf b = fl_div PInf b"
| "ieee_div NInf b = fl_div NInf b"
| "ieee_div (Fin a) NaN = fl_div (Fin a) NaN"
| "ieee_div (Fin a) PInf = fl_div (Fin a) PInf"
| "ieee_div (Fin a) NInf = fl_div (Fin a) NInf"

text \<open>
  The conversion of a Python integer to a float, as \<open>/\<close> does it for an integer operand
  next to a float: correctly rounded, \<open>OverflowError\<close> when the integer is too large.
\<close>

definition float_of_int :: "int \<Rightarrow> py_error + fl" where
  "float_of_int i =
     (case float64_round (of_int i) of
        Fin y \<Rightarrow> Inr (Fin y)
      | NaN \<Rightarrow> Inl OverflowError
      | PInf \<Rightarrow> Inl OverflowError
      | NInf \<Rightarrow> Inl OverflowError)"

text \<open>
  \<open>a / b\<close> for two Python integers: \<open>ZeroDivisionError\<close> on a zero divisor, otherwise
  the exact quotient rounded once to binary64, \<open>OverflowError\<close> when it is too large.
\<close>

definition int_true_div :: "int \<Rightarrow> int \<Rightarrow> py_error + fl" where
  "int_true_div a b =
     (if b = 0 then Inl ZeroDivisionError
      else case float64_round (of_int a / of_int b) of
             Fin y \<Rightarrow> Inr (Fin y)
           | NaN \<Rightarrow> Inl OverflowError
           | PInf \<Rightarrow> Inl OverflowError
           | NInf \<Rightarrow> Inl OverflowError)"

section \<open>Tables\<close>

text \<open>
  A pandas \<open>DataFrame\<close>: the number of rows and the columns in their order, each with
  its name. A column is an \<open>int64\<close> array, a \<open>float64\<close> array or an \<open>object\<close> array of
  strings in which \<open>None\<close> stands for a missing value (a \<open>nan\<close> cell). \<open>int64\<close> values
  are idealised as unbounded integers.
\<close>

datatype column = IntCol "int list" | FloatCol "fl list" | ObjCol "string option list"

record dataframe =
  nrows :: nat
  cols :: "(string \<times> column) list"

text \<open>\<open>df[name]\<close> and \<open>name in df.columns\<close>.\<close>

definition df_get :: "dataframe \<Rightarrow> string \<Rightarrow> py_error + column" where
  "df_get df name = (case map_of (cols df) name of None \<Rightarrow> Inl KeyError | Some c \<Rightarrow> Inr c)"

definition has_col :: "dataframe \<Rightarrow> string \<Rightarrow> bool" where
  "has_col df name = (map_of (cols df) name \<noteq> None)"

text \<open>\<open>df[name] = values\<close>: an existing column is replaced where it stands, a new one
  is appended.\<close>

fun assign :: "string \<Rightarrow> column \<Rightarrow> (string \<times> column) list \<Rightarrow> (string \<times> column) list" where
  "assign name c [] = [(name, c)]"
| "assign name c ((k, v) # ps) = (if k = name then (name, c) # ps else (k, v) # assign name c ps)"

definition df_set :: "dataframe \<Rightarrow> string \<Rightarrow> column \<Rightarrow> dataframe" where
  "df_set df name c = df\<lparr>cols := assign name c (cols df)\<rparr>"

text \<open>\<open>column == s\<close> and \<open>column != s\<close> for a string \<open>s\<close>: elementwise; a missing value and a
  number are never equal to a string.\<close>

fun col_eq_str :: "column \<Rightarrow> string \<Rightarrow> bool list" where
  "col_eq_str (ObjCol xs) s = map (\<lambda>x. x = Some s) xs"
| "col_eq_str (IntCol xs) s = map (\<lambda>_. False) xs"
| "col_eq_str (FloatCol xs) s = map (\<lambda>_. False) xs"

definition col_ne_str :: "column \<Rightarrow> string \<Rightarrow> bool list" where
  "col_ne_str c s = map Not (col_eq_str c s)"

text \<open>\<open>df[mask]\<close>: the rows at which the boolean flags is true.\<close>

definition select :: "bool list \<Rightarrow> 'a list \<Rightarrow> 'a list" where
  "select flags xs = map snd (filter fst (zip flags xs))"

fun col_select :: "bool list \<Rightarrow> column \<Rightarrow> column" where
  "col_select flags (IntCol xs) = IntCol (select flags xs)"
| "col_select flags (FloatCol xs) = FloatCol (select flags xs)"
| "col_select flags (ObjCol xs) = ObjCol (select flags xs)"

definition df_select :: "bool list \<Rightarrow> dataframe \<Rightarrow> dataframe" where
  "df_select flags df =
     \<lparr> nrows = length (filter id flags),
       cols = map (\<lambda>(name, c). (name, col_select flags c)) (cols df) \<rparr>"

text \<open>
  \<open>df.sample(n=n, random_state=42)\<close>: \<open>n\<close> rows drawn without replacement. The
  generator is a parameter: \<open>choice len n\<close> is the list of row positions that
  \<open>RandomState(42).choice(len, n, replace=False)\<close> draws. A negative \<open>n\<close> raises.
\<close>

fun col_take :: "nat list \<Rightarrow> column \<Rightarrow> column" where
  "col_take idx (IntCol xs) = IntCol (map (\<lambda>i. xs ! i) idx)"
| "col_take idx (FloatCol xs) = FloatCol (map (\<lambda>i. xs ! i) idx)"
| "col_take idx (ObjCol xs) = ObjCol (map (\<lambda>i. xs ! i) idx)"

definition df_sample :: "(nat \<Rightarrow> nat \<Rightarrow> nat list) \<Rightarrow> int \<Rightarrow> dataframe \<Rightarrow> py_error + dataframe" where
  "df_sample choice n df =
     (if n < 0 then Inl ValueError
      else let idx = choice (nrows df) (nat n)
           in if \<exists>i \<in> set idx. nrows df \<le> i then Inl IndexError
              else Inr \<lparr> nrows = length idx,
                         cols = map (\<lambda>(name, c). (name, col_take idx c)) (cols df) \<rparr>)"

text \<open>\<open>mask.sum()\<close> and \<open>mask.mean()\<close> of a boolean series; the mean of an empty series
  is \<open>nan\<close>.\<close>

definition bool_sum :: "bool list \<Rightarrow> int" where
  "bool_sum flags = int (length (filter id flags))"

definition bool_mean :: "bool list \<Rightarrow> fl" where
  "bool_mean flags = fl_div (Fin (of_int (bool_sum flags))) (Fin (real (length flags)))"

section \<open>Experiment evaluator (\<open>ab_testing.py\<close>)\<close>

subsection \<open>\<open>recommend_test_duration\<close>\<close>

text \<open>
  \<^verbatim>\<open>total_needed = required_sample_size * 2
days_needed = np.ceil(total_needed / daily_applicants)
return int(days_needed)\<close>
  \<open>required_sample_size\<close> is a Python integer (the integer that \<open>power_analysis\<close>
  returns). \<open>daily_applicants\<close> is documented as an average: it is a Python integer, a
  Python float, or a numpy \<open>float64\<close> scalar such as the mean of a pandas column (a
  numpy integer is converted to \<open>float64\<close> by numpy's division and behaves as the
  \<open>float64\<close> of its value).
\<close>

datatype number = PyInt int | PyFloat fl | NpFloat fl

text \<open>
  \<open>total_needed / daily_applicants\<close> with an integer on the left. Two Python integers
  are divided by \<open>int_true_div\<close>. Next to a float the integer is converted to a float
  first; a Python float then raises \<open>ZeroDivisionError\<close> on a zero divisor, while numpy
  divides as IEEE 754 does and returns an infinity or \<open>nan\<close> (with a warning).
\<close>

definition py_truediv :: "int \<Rightarrow> number \<Rightarrow> py_error + fl" where
  "py_truediv a b =
     (case b of
        PyInt d \<Rightarrow> int_true_div a d
      | PyFloat y \<Rightarrow>
          (case float_of_int a of
             Inl e \<Rightarrow> Inl e
           | Inr x \<Rightarrow> if y = Fin 0 then Inl ZeroDivisionError else Inr (ieee_div x y))
      | NpFloat y \<Rightarrow>
          (case float_of_int a of
             Inl e \<Rightarrow> Inl e
           | Inr x \<Rightarrow> Inr (ieee_div x y)))"

definition recommend_test_duration :: "number \<Rightarrow> int \<Rightarrow> py_error + int" where
  "recommend_test_duration daily_applicants required_sample_size =
     (let total_needed = required_sample_size * 2 in
      case py_truediv total_needed daily_applicants of
        Inl e \<Rightarrow> Inl e
      | Inr days_needed \<Rightarrow> py_int (np_ceil days_needed))"

subsection \<open>\<open>calculate_statistical_significance\<close>\<close>

text \<open>
  The method calls \<open>scipy.stats.chi2_contingency\<close> for the chi-square independence
  test of section 4.6 of the specification; the code of that function is not in the
  repository. Its model starts with the distribution of the test statistic.
\<close>

text \<open>Modelled from the spec: the error function, by its Maclaurin series (the code of
  the chi-square test is not in the repository).\<close>

definition erf :: "real \<Rightarrow> real" where
  "erf z = 2 / sqrt pi * (\<Sum>n. (- 1) ^ n * z ^ (2 * n + 1) / (fact n * real (2 * n + 1)))"

text \<open>Modelled from the spec: the survival function of the chi-square distribution with
  one degree of freedom, \<open>P(Z\<^sup>2 > x) = 1 - erf (sqrt (x / 2))\<close>, the value that
  \<open>scipy.stats.chi2.sf(x, 1)\<close> approximates (the code of the chi-square test is not in
  the repository).\<close>

definition chi2_sf1 :: "real \<Rightarrow> real" where
  "chi2_sf1 x = (if x \<le> 0 then 1 else 1 - erf (sqrt (x / 2)))"

text \<open>Modelled from the spec: the survival function on floats (the code of the
  chi-square test is not in the repository).\<close>

fun chi2_sf :: "fl \<Rightarrow> fl" where
  "chi2_sf (Fin x) = Fin (chi2_sf1 x)"
| "chi2_sf NaN = NaN"
| "chi2_sf PInf = Fin 0"
| "chi2_sf NInf = Fin 1"

text \<open>The absolute value of the \<open>n\<close>-th term of the series, in \<open>u = z\<^sup>2\<close> and without
  the common factor \<open>z\<close>.\<close>

definition erf_coeff :: "real \<Rightarrow> nat \<Rightarrow> real" where
  "erf_coeff u n = u ^ n / (fact n * real (2 * n + 1))"

text \<open>The error function as a power series \<open>\<Sum>n. erf_pow n * z ^ n\<close>: the coefficients of
  the series above, with the zero coefficients of the even powers.\<close>

definition erf_pow :: "nat \<Rightarrow> real" where
  "erf_pow n =
     (if even n then 0 else (- 1) ^ ((n - 1) div 2) / (fact ((n - 1) div 2) * real n))"

text \<open>The partial sums of ten and of eleven terms of the alternating series in \<open>u\<close>; they
  enclose its sum for \<open>0 \<le> u \<le> 4\<close>.\<close>

definition erf_sum10 :: "real \<Rightarrow> real" where
  "erf_sum10 u = erf_coeff u 0 - erf_coeff u 1 + erf_coeff u 2 - erf_coeff u 3 + erf_coeff u 4
         - erf_coeff u 5 + erf_coeff u 6 - erf_coeff u 7 + erf_coeff u 8 - erf_coeff u 9"

definition erf_sum11 :: "real \<Rightarrow> real" where
  "erf_sum11 u = erf_sum10 u + erf_coeff u 10"

text \<open>
  The chi-square independence test, \<open>scipy.stats.chi2_contingency(observed)\<close>, on a
  2x2 table and with the defaults of that function (\<open>correction=True\<close>, Pearson's
  statistic):
  \<^item> a negative entry raises \<open>ValueError\<close>;
  \<^item> the expected frequencies are \<open>row total * column total / grand total\<close>; a zero
    among them raises \<open>ValueError\<close>;
  \<^item> the degrees of freedom of a 2x2 table are 1, so Yates' continuity correction moves
    every observed count towards its expected value by \<open>min(0.5, |expected - observed|)\<close>;
  \<^item> the statistic is the sum of \<open>(observed - expected)\<^sup>2 / expected\<close> and the p-value
    is the chi-square survival function at the statistic.
\<close>

type_synonym 'a table2 = "('a \<times> 'a) \<times> ('a \<times> 'a)"

text \<open>Modelled from the spec: the expected frequencies of the contingency table under
  independence (the code of the chi-square test is not in the repository).\<close>

definition expected_freq :: "int table2 \<Rightarrow> fl table2" where
  "expected_freq observed =
     (case observed of ((a, b), (c, d)) \<Rightarrow>
        let total = Fin (of_int (a + b + c + d));
            e = (\<lambda>r k. fl_div (Fin (of_int (r * k))) total)
        in ((e (a + b) (a + c), e (a + b) (b + d)), (e (c + d) (a + c), e (c + d) (b + d))))"

text \<open>Modelled from the spec: the continuity correction of one observed count (the code
  of the chi-square test is not in the repository).\<close>

definition yates :: "int \<Rightarrow> fl \<Rightarrow> fl" where
  "yates obs ex =
     (let diff = fl_sub ex (Fin (of_int obs));
          direction = fl_sign diff;
          magnitude = np_minimum (Fin (1 / 2)) (fl_abs diff)
      in fl_add (Fin (of_int obs)) (fl_mul magnitude direction))"

text \<open>Modelled from the spec: one term of Pearson's chi-square statistic (the code of
  the chi-square test is not in the repository).\<close>

definition pearson_term :: "fl \<Rightarrow> fl \<Rightarrow> fl" where
  "pearson_term f_obs f_exp =
     fl_div (fl_mul (fl_sub f_obs f_exp) (fl_sub f_obs f_exp)) f_exp"

text \<open>Modelled from the spec: the chi-square independence test of a 2x2 table; it
  returns the statistic, the p-value, the degrees of freedom and the expected
  frequencies (its code, \<open>scipy.stats.chi2_contingency\<close>, is not in the repository).\<close>

definition chi2_contingency :: "int table2 \<Rightarrow> py_error + (fl \<times> fl \<times> nat \<times> fl table2)" where
  "chi2_contingency observed =
     (case observed of ((a, b), (c, d)) \<Rightarrow>
        if a < 0 \<or> b < 0 \<or> c < 0 \<or> d < 0 then Inl ValueError
        else
          (case expected_freq observed of ((ea, eb), (ec, ed)) \<Rightarrow>
             if ea = Fin 0 \<or> eb = Fin 0 \<or> ec = Fin 0 \<or> ed = Fin 0 then Inl ValueError
             else
               let dof = 1;
                   chi2 = fl_add (fl_add (fl_add (pearson_term (yates a ea) ea)
                                                  (pearson_term (yates b eb) eb))
                                         (pearson_term (yates c ec) ec))
                                 (pearson_term (yates d ed) ed);
                   p = chi2_sf chi2
               in Inr (chi2, p, dof, ((ea, eb), (ec, ed)))))"

text \<open>numpy's \<open>sqrt\<close> and \<open>arcsin\<close>: \<open>nan\<close> outside the domain, no exception.\<close>

fun np_sqrt :: "fl \<Rightarrow> fl" where
  "np_sqrt (Fin a) = (if a < 0 then NaN else Fin (sqrt a))"
| "np_sqrt PInf = PInf"
| "np_sqrt _ = NaN"

fun np_arcsin :: "fl \<Rightarrow> fl" where
  "np_arcsin (Fin a) = (if a < - 1 \<or> 1 < a then NaN else Fin (arcsin a))"
| "np_arcsin _ = NaN"

record sig_result =
  chi_square :: fl
  p_value :: fl
  is_significant :: bool
  alpha :: real
  cohens_h :: fl
  control_rate :: real
  treatment_rate :: real
  relative_improvement :: real

text \<open>
  The four counts are Python integers (\<open>main\<close> passes \<open>int(...)\<close> and \<open>len(...)\<close>), so
  \<open>control_success / control_total\<close> is Python's true division and raises on a zero
  total; \<open>alpha\<close> is a Python float.
\<close>

definition calculate_statistical_significance ::
  "int \<Rightarrow> int \<Rightarrow> int \<Rightarrow> int \<Rightarrow> real \<Rightarrow> py_error + sig_result" where
  "calculate_statistical_significance control_success control_total
       treatment_success treatment_total alpha_level =
     (let contingency_table =
            ((control_success, control_total - control_success),
             (treatment_success, treatment_total - treatment_success))
      in case chi2_contingency contingency_table of
           Inl e \<Rightarrow> Inl e
         | Inr (chi2, p, dof, expected) \<Rightarrow>
             (case true_div (of_int control_success) (of_int control_total) of
                Inl e \<Rightarrow> Inl e
              | Inr p1 \<Rightarrow>
                  (case true_div (of_int treatment_success) (of_int treatment_total) of
                     Inl e \<Rightarrow> Inl e
                   | Inr p2 \<Rightarrow>
                       let h = fl_mul (Fin 2)
                                 (fl_sub (np_arcsin (np_sqrt (Fin p2)))
                                         (np_arcsin (np_sqrt (Fin p1))))
                       in case (if p1 > 0
                                then (case true_div (p2 - p1) p1 of
                                        Inl e \<Rightarrow> Inl e
                                      | Inr q \<Rightarrow> Inr (q * 100))
                                else Inr 0) of
                            Inl e \<Rightarrow> Inl e
                          | Inr rel \<Rightarrow>
                              Inr \<lparr> chi_square = chi2,
                                    p_value = p,
                                    is_significant = fl_less p (Fin alpha_level),
                                    alpha = alpha_level,
                                    cohens_h = h,
                                    control_rate = p1,
                                    treatment_rate = p2,
                                    relative_improvement = rel \<rparr>)))"

subsection \<open>\<open>power_analysis\<close>\<close>

text \<open>
  \<^verbatim>\<open>new_rate = baseline_rate * (1 + expected_improvement)
effect_size = 2 * (np.arcsin(np.sqrt(new_rate)) - np.arcsin(np.sqrt(baseline_rate)))
sample_size = zt_ind_solve_power(effect_size=effect_size, alpha=alpha, power=power,
                                 alternative='two-sided')
return int(np.ceil(sample_size))\<close>
  The solver \<open>zt_ind_solve_power\<close> belongs to the package \<open>statsmodels\<close>; only this call
  is in the repository. It is modelled from section 4.6 of the specification: the
  minimum per-group sample size that achieves the target power under a two-sided
  z-test.
\<close>

text \<open>Modelled from the spec: the standard normal distribution function of the z-test
  (the solver's code is not in the repository).\<close>

definition Phi :: "real \<Rightarrow> real" where
  "Phi x = (1 + erf (x / sqrt 2)) / 2"

text \<open>Modelled from the spec: the quantile of the standard normal distribution, which
  gives the critical value of the two-sided test at level \<open>alpha\<close> as
  \<open>norm_quantile (1 - alpha / 2)\<close> (the solver's code is not in the repository).\<close>

definition norm_quantile :: "real \<Rightarrow> real" where
  "norm_quantile p = Inf {z. p \<le> Phi z}"

text \<open>Modelled from the spec: the power of the two-sided z-test for two independent
  groups of \<open>nobs1\<close> observations each, at a standardised effect size: the probability
  that the test statistic, shifted by \<open>effect_size * sqrt (nobs1 / 2)\<close>, falls beyond
  either critical value (the solver's code is not in the repository).\<close>

definition z_test_power :: "real \<Rightarrow> real \<Rightarrow> real \<Rightarrow> real" where
  "z_test_power effect_size alpha_level nobs1 =
     (let crit = norm_quantile (1 - alpha_level / 2);
          shift = effect_size * sqrt (nobs1 / 2)
      in Phi (shift - crit) + Phi (- shift - crit))"

text \<open>Modelled from the spec: the minimum per-group sample size, as a real number, that
  achieves the target power (the solver's code is not in the repository). The value
  is not specified where no sample size achieves the target.\<close>

definition zt_ind_solve_power :: "real \<Rightarrow> real \<Rightarrow> real \<Rightarrow> real" where
  "zt_ind_solve_power effect_size alpha_level target_power =
     Inf {n. 0 \<le> n \<and> target_power \<le> z_test_power effect_size alpha_level n}"

text \<open>
  The method itself, from the source. The rates are Python floats; numpy's \<open>sqrt\<close> and
  \<open>arcsin\<close> give \<open>nan\<close> outside their domain, and a \<open>nan\<close> effect size has no sample
  size that \<open>int\<close> could convert. The keyword argument \<open>power\<close> is called
  \<open>target_power\<close> here.
\<close>

definition power_analysis :: "real \<Rightarrow> real \<Rightarrow> real \<Rightarrow> real \<Rightarrow> py_error + int" where
  "power_analysis baseline_rate expected_improvement alpha_level target_power =
     (let new_rate = baseline_rate * (1 + expected_improvement);
          effect_size = fl_mul (Fin 2) (fl_sub (np_arcsin (np_sqrt (Fin new_rate)))
                                               (np_arcsin (np_sqrt (Fin baseline_rate))))
      in case effect_size of
           Fin d \<Rightarrow> Inr \<lceil>zt_ind_solve_power d alpha_level target_power\<rceil>
         | _ \<Rightarrow> Inl ValueError)"

text \<open>The effect size of a baseline rate of \<open>0.20\<close> improved by \<open>15%\<close> to \<open>0.23\<close>.\<close>

definition cohen_h :: real where
  "cohen_h = 2 * (arcsin (sqrt (23 / 100)) - arcsin (sqrt (1 / 5)))"

subsection \<open>\<open>simulate_intervention\<close>\<close>

record sim_result =
  stage :: string
  sample_size :: nat
  baseline_pass_rate :: fl
  new_pass_rate :: fl
  baseline_passed :: int
  expected_passed :: int
  additional_passed :: int
  improvement_pct :: fl

text \<open>
  \<open>self.df\<close> is only read (the filtered frame is a copy). \<open>sample_size\<close> is \<open>None\<close> or an
  integer; \<open>if sample_size:\<close> is false for \<open>None\<close> and for \<open>0\<close>. The pass rate is a numpy
  float, so the division for \<open>improvement_pct\<close> yields \<open>nan\<close> instead of raising, while
  \<open>int(...)\<close> of a \<open>nan\<close> product raises \<open>ValueError\<close>: this is what happens for a stage
  without rows.
\<close>

definition simulate_intervention ::
  "(nat \<Rightarrow> nat \<Rightarrow> nat list) \<Rightarrow> dataframe \<Rightarrow> string \<Rightarrow> real \<Rightarrow> int option
     \<Rightarrow> py_error + sim_result" where
  "simulate_intervention choice df stage_name improvement_rate sample_size_arg =
     (case df_get df ''Stage'' of
        Inl e \<Rightarrow> Inl e
      | Inr stage_col \<Rightarrow>
          let filtered = df_select (col_eq_str stage_col stage_name) df
          in case (case sample_size_arg of
                     None \<Rightarrow> Inr filtered
                   | Some n \<Rightarrow>
                       if n \<noteq> 0 then df_sample choice (min n (int (nrows filtered))) filtered
                       else Inr filtered) of
               Inl e \<Rightarrow> Inl e
             | Inr stage_data \<Rightarrow>
                 (case df_get stage_data ''Status'' of
                    Inl e \<Rightarrow> Inl e
                  | Inr status \<Rightarrow>
                      let passed = col_ne_str status ''Rejected'';
                          base_rate = bool_mean passed;
                          base_passed = bool_sum passed;
                          new_rate = py_min (fl_mul base_rate (Fin (1 + improvement_rate))) (Fin 1)
                      in case py_int (fl_mul (Fin (real (nrows stage_data))) new_rate) of
                           Inl e \<Rightarrow> Inl e
                         | Inr expected \<Rightarrow>
                             Inr \<lparr> stage = stage_name,
                                   sample_size = nrows stage_data,
                                   baseline_pass_rate = base_rate,
                                   new_pass_rate = new_rate,
                                   baseline_passed = base_passed,
                                   expected_passed = expected,
                                   additional_passed = expected - base_passed,
                                   improvement_pct =
                                     fl_mul (fl_div (fl_sub new_rate base_rate) base_rate)
                                            (Fin 100) \<rparr>))"

section \<open>Feature engineering (\<open>feature_engineering.py\<close>)\<close>

subsection \<open>Objects and references\<close>

text \<open>
  Data frames are mutable objects. The heap is the list of the frames allocated so far
  and a reference is a position in it; \<open>df.copy()\<close> allocates a new frame with the same
  contents, and \<open>df[name] = values\<close> changes the frame behind the reference.
\<close>

type_synonym ref = nat

type_synonym heap = "dataframe list"

definition df_copy :: "ref \<Rightarrow> heap \<Rightarrow> ref \<times> heap" where
  "df_copy r h = (length h, h @ [h ! r])"

subsection \<open>\<open>create_target_variable\<close>\<close>

text \<open>\<open>flags.astype(int)\<close> of a boolean series.\<close>

definition astype_int :: "bool list \<Rightarrow> column" where
  "astype_int flags = IntCol (map (\<lambda>b. if b then 1 else 0) flags)"

text \<open>
  \<^verbatim>\<open>df_target = df.copy()
df_target['will_drop_off'] = (df_target['Status'] == 'Rejected').astype(int)
...
return df_target\<close>
  A module-level function: it has no \<open>self\<close> and reads no global. The statements
  between the assignment and the \<open>return\<close> only print counts (the drop-off rate is a
  numpy division, \<open>nan\<close> for an empty frame, never an exception). A frame without a
  \<open>Status\<close> column raises \<open>KeyError\<close> after the copy has been made.
\<close>

definition create_target_variable :: "ref \<Rightarrow> heap \<Rightarrow> (py_error + ref) \<times> heap" where
  "create_target_variable df h =
     (case df_copy df h of (df_target, h1) \<Rightarrow>
        (case df_get (h1 ! df_target) ''Status'' of
           Inl e \<Rightarrow> (Inl e, h1)
         | Inr status \<Rightarrow>
             (Inr df_target,
              h1[df_target := df_set (h1 ! df_target) ''will_drop_off''
                                (astype_int (col_eq_str status ''Rejected''))])))"

subsection \<open>Label encoders\<close>

text \<open>Decimal rendering of an integer, as \<open>str\<close> gives it.\<close>

definition digit_char :: "nat \<Rightarrow> char" where
  "digit_char d = char_of (48 + d)"

function str_of_nat :: "nat \<Rightarrow> string" where
  "str_of_nat n =
     (if n < 10 then [digit_char n] else str_of_nat (n div 10) @ [digit_char (n mod 10)])"
  by pat_completeness auto
termination
  by (relation "measure id") auto

declare str_of_nat.simps [simp del]

definition str_of_int :: "int \<Rightarrow> string" where
  "str_of_int i = (if i < 0 then CHR ''-'' # str_of_nat (nat (- i)) else str_of_nat (nat i))"

text \<open>
  \<open>column.astype(str)\<close>: a string stays, a missing value becomes \<open>'nan'\<close>, an integer
  its decimal rendering. The rendering of a float (\<open>repr\<close>) is a parameter.
\<close>

fun astype_str :: "(fl \<Rightarrow> string) \<Rightarrow> column \<Rightarrow> string list" where
  "astype_str float_str (ObjCol xs) = map (\<lambda>x. case x of None \<Rightarrow> ''nan'' | Some s \<Rightarrow> s) xs"
| "astype_str float_str (IntCol xs) = map str_of_int xs"
| "astype_str float_str (FloatCol xs) = map float_str xs"

text \<open>The position of the first occurrence of a value in a list.\<close>

fun position :: "'a list \<Rightarrow> 'a \<Rightarrow> nat" where
  "position [] x = 0"
| "position (y # ys) x = (if x = y then 0 else Suc (position ys x))"

text \<open>
  A fitted \<open>LabelEncoder\<close> is its \<open>classes_\<close>: the sorted distinct values seen by \<open>fit\<close>.
  \<open>fit_transform\<close> returns the classes and the code of every value, its position among
  the classes; \<open>transform\<close> raises \<open>ValueError\<close> on a value that is not a class.
\<close>

definition fit_transform :: "string list \<Rightarrow> string list \<times> column" where
  "fit_transform ys =
     (let classes = sort (remdups ys)
      in (classes, IntCol (map (\<lambda>y. int (position classes y)) ys)))"

definition transform :: "string list \<Rightarrow> string list \<Rightarrow> py_error + column" where
  "transform classes ys =
     (if \<forall>y \<in> set ys. y \<in> set classes
      then Inr (IntCol (map (\<lambda>y. int (position classes y)) ys))
      else Inl ValueError)"

subsection \<open>Statements on the frame being built\<close>

text \<open>
  Every statement of \<open>create_features\<close> after the copy reads and writes two objects
  only: the dictionary \<open>self.label_encoders\<close> and the frame \<open>df_features\<close>. A statement
  is a transformer of that pair which may raise; a raised exception leaves the pair as
  it was when the exception occurred.
\<close>

type_synonym encoders = "string \<rightharpoonup> string list"

type_synonym stmt = "encoders \<times> dataframe \<Rightarrow> py_error option \<times> (encoders \<times> dataframe)"

text \<open>\<open>df_features[name] = f(df_features)\<close>\<close>

definition set_col :: "string \<Rightarrow> (dataframe \<Rightarrow> py_error + column) \<Rightarrow> stmt" where
  "set_col name f = (\<lambda>(enc, df).
     case f df of
       Inl e \<Rightarrow> (Some e, (enc, df))
     | Inr c \<Rightarrow> (None, (enc, df_set df name c)))"

text \<open>A sequence of statements stops at the first exception.\<close>

fun block :: "stmt list \<Rightarrow> stmt" where
  "block [] st = (None, st)"
| "block (f # fs) st =
     (case f st of
        (None, st') \<Rightarrow> block fs st'
      | (Some e, st') \<Rightarrow> (Some e, st'))"

text \<open>\<open>if cond(df_features): body\<close>\<close>

definition when_cols :: "string list \<Rightarrow> stmt list \<Rightarrow> stmt" where
  "when_cols names body = (\<lambda>(enc, df).
     if \<forall>name \<in> set names. has_col df name then block body (enc, df) else (None, (enc, df)))"

text \<open>
  The body of the loop over the categorical columns:
  \<^verbatim>\<open>if col in df_features.columns:
    if col not in self.label_encoders:
        self.label_encoders[col] = LabelEncoder()
        df_features[f'{col}_encoded'] = self.label_encoders[col].fit_transform(
            df_features[col].astype(str))
    else:
        df_features[f'{col}_encoded'] = self.label_encoders[col].transform(
            df_features[col].astype(str))\<close>
\<close>

definition encode_col :: "(fl \<Rightarrow> string) \<Rightarrow> string \<Rightarrow> stmt" where
  "encode_col float_str col = (\<lambda>(enc, df).
     case map_of (cols df) col of
       None \<Rightarrow> (None, (enc, df))
     | Some c \<Rightarrow>
         (case enc col of
            None \<Rightarrow>
              (case fit_transform (astype_str float_str c) of
                 (classes, codes) \<Rightarrow>
                   (None, (enc(col \<mapsto> classes), df_set df (col @ ''_encoded'') codes)))
          | Some classes \<Rightarrow>
              (case transform classes (astype_str float_str c) of
                 Inl e \<Rightarrow> (Some e, (enc, df))
               | Inr codes \<Rightarrow> (None, (enc, df_set df (col @ ''_encoded'') codes)))))"

subsection \<open>Column arithmetic\<close>

text \<open>
  The numbers of a numeric column as floats. Arithmetic on an object column raises
  \<open>TypeError\<close>: that is what pandas does as soon as the column holds a string (an
  object column that holds missing values only is outside the model).
\<close>

fun as_floats :: "column \<Rightarrow> py_error + fl list" where
  "as_floats (IntCol xs) = Inr (map (\<lambda>x. Fin (of_int x)) xs)"
| "as_floats (FloatCol xs) = Inr xs"
| "as_floats (ObjCol xs) = Inl TypeError"

definition with_col :: "string \<Rightarrow> (column \<Rightarrow> py_error + column) \<Rightarrow> dataframe \<Rightarrow> py_error + column" where
  "with_col name f df = (case df_get df name of Inl e \<Rightarrow> Inl e | Inr c \<Rightarrow> f c)"

text \<open>\<open>column ** 2\<close>\<close>

fun col_square :: "column \<Rightarrow> py_error + column" where
  "col_square (IntCol xs) = Inr (IntCol (map (\<lambda>x. x * x) xs))"
| "col_square (FloatCol xs) = Inr (FloatCol (map (\<lambda>x. fl_mul x x) xs))"
| "col_square (ObjCol xs) = Inl TypeError"

text \<open>\<open>column.mean()\<close> and \<open>column.std()\<close> skip missing values; the standard deviation
  is the sample one (\<open>ddof=1\<close>) and is \<open>nan\<close> for fewer than two values.\<close>

definition skipna :: "fl list \<Rightarrow> fl list" where
  "skipna xs = filter (\<lambda>x. x \<noteq> NaN) xs"

definition fl_sum :: "fl list \<Rightarrow> fl" where
  "fl_sum xs = foldr fl_add xs (Fin 0)"

definition fl_mean :: "fl list \<Rightarrow> fl" where
  "fl_mean xs =
     (let vals = skipna xs
      in if vals = [] then NaN else fl_div (fl_sum vals) (Fin (real (length vals))))"

definition fl_std :: "fl list \<Rightarrow> fl" where
  "fl_std xs =
     (let vals = skipna xs; m = fl_mean xs
      in if length vals < 2 then NaN
         else np_sqrt (fl_div (fl_sum (map (\<lambda>x. fl_mul (fl_sub x m) (fl_sub x m)) vals))
                              (Fin (real (length vals - 1)))))"

text \<open>\<open>(column - column.mean()) / column.std()\<close>\<close>

definition col_normalize :: "column \<Rightarrow> py_error + column" where
  "col_normalize c =
     (case as_floats c of
        Inl e \<Rightarrow> Inl e
      | Inr xs \<Rightarrow> Inr (FloatCol (map (\<lambda>x. fl_div (fl_sub x (fl_mean xs)) (fl_std xs)) xs)))"

text \<open>\<open>column / 8\<close>\<close>

definition col_div :: "real \<Rightarrow> column \<Rightarrow> py_error + column" where
  "col_div k c =
     (case as_floats c of
        Inl e \<Rightarrow> Inl e
      | Inr xs \<Rightarrow> Inr (FloatCol (map (\<lambda>x. fl_div x (Fin k)) xs)))"

text \<open>\<open>(column <= k).astype(int)\<close> and its like: a comparison with a missing value is
  false.\<close>

definition fl_le :: "fl \<Rightarrow> fl \<Rightarrow> bool" where
  "fl_le a b = (fl_less a b \<or> (a = b \<and> a \<noteq> NaN))"

definition col_flag :: "(fl \<Rightarrow> bool) \<Rightarrow> column \<Rightarrow> py_error + column" where
  "col_flag P c =
     (case as_floats c of
        Inl e \<Rightarrow> Inl e
      | Inr xs \<Rightarrow> Inr (astype_int (map P xs)))"

text \<open>\<open>np.log1p\<close>: \<open>-inf\<close> at \<open>-1\<close>, \<open>nan\<close> below it, no exception.\<close>

fun np_log1p :: "fl \<Rightarrow> fl" where
  "np_log1p (Fin x) = (if - 1 < x then Fin (ln (1 + x)) else if x = - 1 then NInf else NaN)"
| "np_log1p PInf = PInf"
| "np_log1p _ = NaN"

definition col_log1p :: "column \<Rightarrow> py_error + column" where
  "col_log1p c =
     (case as_floats c of
        Inl e \<Rightarrow> Inl e
      | Inr xs \<Rightarrow> Inr (FloatCol (map np_log1p xs)))"

text \<open>
  The historical success rate by source:
  \<^verbatim>\<open>source_success = df_features.groupby('Source')['Status'].apply(
    lambda x: (x == 'Hired').sum() / len(x) if len(x) > 0 else 0).to_dict()
df_features['Source_success_rate'] = df_features['Source'].map(source_success)\<close>
  \<open>groupby\<close> drops the rows whose key is missing, so \<open>map\<close> gives those rows \<open>nan\<close>.
\<close>

datatype cell = IntC int | FloatC fl | StrC string

fun cells :: "column \<Rightarrow> cell option list" where
  "cells (IntCol xs) = map (\<lambda>x. Some (IntC x)) xs"
| "cells (FloatCol xs) = map (\<lambda>x. if x = NaN then None else Some (FloatC x)) xs"
| "cells (ObjCol xs) = map (map_option StrC) xs"

definition source_success_rate :: "column \<Rightarrow> column \<Rightarrow> column" where
  "source_success_rate source status =
     (let rows = zip (cells source) (col_eq_str status ''Hired'');
          source_success = (\<lambda>k.
             let x = map snd (filter (\<lambda>(k', hired). k' = Some k) rows)
             in if length x > 0 then real (length (filter id x)) / real (length x) else 0)
      in FloatCol (map (\<lambda>k. case k of None \<Rightarrow> NaN | Some c \<Rightarrow> Fin (source_success c))
                       (cells source)))"

text \<open>
  \<open>age * education\<close>, elementwise. An integer times a string is the repeated string;
  a float times a string raises \<open>TypeError\<close>; a missing operand gives a missing result.
\<close>

fun col_mul :: "column \<Rightarrow> column \<Rightarrow> py_error + column" where
  "col_mul (IntCol xs) (IntCol ys) = Inr (IntCol (map2 (*) xs ys))"
| "col_mul (IntCol xs) (FloatCol ys) = Inr (FloatCol (map2 (\<lambda>x y. fl_mul (Fin (of_int x)) y) xs ys))"
| "col_mul (FloatCol xs) (IntCol ys) = Inr (FloatCol (map2 (\<lambda>x y. fl_mul x (Fin (of_int y))) xs ys))"
| "col_mul (FloatCol xs) (FloatCol ys) = Inr (FloatCol (map2 fl_mul xs ys))"
| "col_mul (IntCol xs) (ObjCol ys) =
     Inr (ObjCol (map2 (\<lambda>x y. map_option (\<lambda>s. concat (replicate (nat x) s)) y) xs ys))"
| "col_mul (FloatCol xs) (ObjCol ys) =
     (if \<exists>(x, y) \<in> set (zip xs ys). x \<noteq> NaN \<and> y \<noteq> None then Inl TypeError
      else Inr (ObjCol (map2 (\<lambda>x y. None) xs ys)))"
| "col_mul (ObjCol xs) c = Inl TypeError"

subsection \<open>\<open>FeatureEngineer.create_features\<close>\<close>

definition categorical_cols :: "string list" where
  "categorical_cols = [''Source'', ''Job_Role'', ''Department'', ''Gender'', ''EducationField'']"

text \<open>The statements of the method after \<open>df_features = df.copy()\<close>, in the order of the
  source.\<close>

definition feature_stmts :: "(fl \<Rightarrow> string) \<Rightarrow> stmt list" where
  "feature_stmts float_str =
     map (encode_col float_str) categorical_cols @
     [when_cols [''Age'']
        [set_col ''Age_squared'' (with_col ''Age'' col_square),
         set_col ''Age_normalized'' (with_col ''Age'' col_normalize)],
      when_cols [''Education'']
        [set_col ''Education_level'' (\<lambda>df. df_get df ''Education'')],
      when_cols [''Stage_Sequence'']
        [set_col ''Stage_progress'' (with_col ''Stage_Sequence'' (col_div 8)),
         set_col ''Is_early_stage'' (with_col ''Stage_Sequence'' (col_flag (\<lambda>x. fl_le x (Fin 3)))),
         set_col ''Is_late_stage'' (with_col ''Stage_Sequence'' (col_flag (\<lambda>x. fl_le (Fin 6) x)))],
      when_cols [''Days_Since_Application'']
        [set_col ''Days_log'' (with_col ''Days_Since_Application'' col_log1p),
         set_col ''Is_slow_process''
           (with_col ''Days_Since_Application'' (col_flag (\<lambda>x. fl_less (Fin 50) x)))],
      when_cols [''Source'', ''Status'']
        [set_col ''Source_success_rate''
           (\<lambda>df. case df_get df ''Source'' of
                    Inl e \<Rightarrow> Inl e
                  | Inr source \<Rightarrow>
                      (case df_get df ''Status'' of
                         Inl e \<Rightarrow> Inl e
                       | Inr status \<Rightarrow> Inr (source_success_rate source status)))],
      when_cols [''Age'', ''Education'']
        [set_col ''Age_Education_interaction''
           (\<lambda>df. case df_get df ''Age'' of
                    Inl e \<Rightarrow> Inl e
                  | Inr age \<Rightarrow>
                      (case df_get df ''Education'' of
                         Inl e \<Rightarrow> Inl e
                       | Inr education \<Rightarrow> col_mul age education))]]"

text \<open>
  The method itself. The state of \<open>self\<close> that it uses is the dictionary
  \<open>label_encoders\<close> (the \<open>scaler\<close> is created and never used). It copies the frame behind
  \<open>df\<close>, runs the statements on the copy and returns the reference to the copy; whether
  it returns or raises, the encoders and the heap are as the statements left them.
\<close>

definition create_features ::
  "(fl \<Rightarrow> string) \<Rightarrow> encoders \<Rightarrow> ref \<Rightarrow> heap \<Rightarrow> (py_error + ref) \<times> encoders \<times> heap" where
  "create_features float_str label_encoders df h =
     (case df_copy df h of (df_features, h1) \<Rightarrow>
        (case block (feature_stmts float_str) (label_encoders, h1 ! df_features) of
           (None, (enc', d)) \<Rightarrow> (Inr df_features, enc', h1[df_features := d])
         | (Some e, (enc', d)) \<Rightarrow> (Inl e, enc', h1[df_features := d])))"

subsection \<open>\<open>FeatureEngineer.prepare_for_modeling\<close>\<close>

text \<open>\<open>column.median()\<close>: the middle of the sorted non-missing values, the mean of the two
  middle ones for an even count, \<open>nan\<close> when there is none.\<close>

fun fl_insort :: "fl \<Rightarrow> fl list \<Rightarrow> fl list" where
  "fl_insort x [] = [x]"
| "fl_insort x (y # ys) = (if fl_less y x then y # fl_insort x ys else x # y # ys)"

definition fl_sort :: "fl list \<Rightarrow> fl list" where
  "fl_sort xs = foldr fl_insort xs []"

definition median :: "fl list \<Rightarrow> fl" where
  "median xs =
     (let vals = fl_sort (skipna xs); n = length vals
      in if n = 0 then NaN
         else if odd n then vals ! (n div 2)
         else fl_div (fl_add (vals ! (n div 2 - 1)) (vals ! (n div 2))) (Fin 2))"

text \<open>\<open>X.fillna(X.median())\<close> on one column: a missing value is replaced by the median of
  this column; an integer column has no missing value. The median of an object column
  raises \<open>TypeError\<close> as soon as the column holds a string (pandas 2); when every cell of the
  object column is missing its median is \<open>nan\<close>, nothing is filled and the column is
  returned as it is.\<close>

fun fillna_median :: "column \<Rightarrow> py_error + column" where
  "fillna_median (FloatCol xs) = Inr (FloatCol (map (\<lambda>x. if x = NaN then median xs else x) xs))"
| "fillna_median (IntCol xs) = Inr (IntCol xs)"
| "fillna_median (ObjCol xs) =
     (if list_all (\<lambda>x. x = None) xs then Inr (ObjCol xs) else Inl TypeError)"

fun fillna_cols :: "(string \<times> column) list \<Rightarrow> py_error + (string \<times> column) list" where
  "fillna_cols [] = Inr []"
| "fillna_cols ((name, c) # ps) =
     (case fillna_median c of
        Inl e \<Rightarrow> Inl e
      | Inr c' \<Rightarrow> (case fillna_cols ps of Inl e \<Rightarrow> Inl e | Inr ps' \<Rightarrow> Inr ((name, c') # ps')))"

text \<open>\<open>df[feature_cols]\<close>: the named columns in the order of the list; a missing name
  raises \<open>KeyError\<close>.\<close>

fun df_columns :: "dataframe \<Rightarrow> string list \<Rightarrow> py_error + (string \<times> column) list" where
  "df_columns df [] = Inr []"
| "df_columns df (name # names) =
     (case df_get df name of
        Inl e \<Rightarrow> Inl e
      | Inr c \<Rightarrow> (case df_columns df names of Inl e \<Rightarrow> Inl e | Inr ps \<Rightarrow> Inr ((name, c) # ps)))"

definition numeric_dtype :: "column \<Rightarrow> bool" where
  "numeric_dtype c = (case c of IntCol _ \<Rightarrow> True | FloatCol _ \<Rightarrow> True | ObjCol _ \<Rightarrow> False)"

definition exclude_cols :: "string \<Rightarrow> string list" where
  "exclude_cols target_col =
     [target_col, ''Applicant_ID'', ''Application_Date'', ''Stage_Date'', ''Stage'', ''Status'',
      ''Source'', ''Job_Role'', ''Department'', ''Gender'', ''EducationField'']"

text \<open>
  The method reads the frame and nothing of \<open>self\<close>; \<open>X\<close> is a new frame (\<open>copy\<close>, then
  \<open>fillna\<close> which returns a new frame), so it is a function from the frame's value to
  the triple \<open>(X, y, feature_cols)\<close>. \<open>feature_cols=None\<close> selects every \<open>int64\<close> or
  \<open>float64\<close> column that is not excluded; \<open>y\<close> is \<open>None\<close> without a target column.
\<close>

definition prepare_for_modeling ::
  "dataframe \<Rightarrow> string \<Rightarrow> string list option
     \<Rightarrow> py_error + (dataframe \<times> column option \<times> string list)" where
  "prepare_for_modeling df target_col feature_cols_arg =
     (let feature_cols =
            (case feature_cols_arg of
               None \<Rightarrow> map fst (filter (\<lambda>(name, c). name \<notin> set (exclude_cols target_col) \<and>
                                                       numeric_dtype c) (cols df))
             | Some names \<Rightarrow> names)
      in case df_columns df feature_cols of
           Inl e \<Rightarrow> Inl e
         | Inr selected \<Rightarrow>
             (case fillna_cols selected of
                Inl e \<Rightarrow> Inl e
              | Inr filled \<Rightarrow>
                  Inr (\<lparr> nrows = nrows df, cols = filled \<rparr>,
                       (if has_col df target_col then map_of (cols df) target_col else None),
                       feature_cols)))"

subsection \<open>Replaying the statements with the fitted encoders\<close>

text \<open>
  A statement is replayable when, after a run that raised nothing, running it again on
  the same frame with the encoders it left (or any extension of them) raises nothing,
  yields the same frame and leaves those encoders as they are; a run never removes or
  changes a fitted encoder.
\<close>

definition replayable :: "stmt \<Rightarrow> bool" where
  "replayable f \<longleftrightarrow>
     (\<forall>enc d enc' d'. f (enc, d) = (None, (enc', d')) \<longrightarrow>
        enc \<subseteq>\<^sub>m enc' \<and> (\<forall>E. enc' \<subseteq>\<^sub>m E \<longrightarrow> f (E, d) = (None, (E, d'))))"

subsection \<open>Example frames\<close>

definition funnel :: dataframe where
  "funnel = \<lparr> nrows = 3,
      cols = [(''Source'', ObjCol [Some ''b'', Some ''a'', Some ''b'']),
              (''Stage_Sequence'', IntCol [1, 2, 7]),
              (''Status'', ObjCol [Some ''Hired'', Some ''Rejected'', Some ''Passed''])] \<rparr>"

definition funnel_features :: dataframe where
  "funnel_features = \<lparr> nrows = 3,
      cols = [(''Source'', ObjCol [Some ''b'', Some ''a'', Some ''b'']),
              (''Stage_Sequence'', IntCol [1, 2, 7]),
              (''Status'', ObjCol [Some ''Hired'', Some ''Rejected'', Some ''Passed'']),
              (''Source_encoded'', IntCol [1, 0, 1]),
              (''Stage_progress'', FloatCol [Fin (1 / 8), Fin (1 / 4), Fin (7 / 8)]),
              (''Is_early_stage'', IntCol [1, 1, 0]),
              (''Is_late_stage'', IntCol [0, 0, 1]),
              (''Source_success_rate'', FloatCol [Fin (1 / 2), Fin 0, Fin (1 / 2)])] \<rparr>"

definition fit_frame :: dataframe where
  "fit_frame = \<lparr> nrows = 3, cols = [(''Age'', FloatCol [Fin 1, NaN, Fin 3])] \<rparr>"

definition new_frame :: dataframe where
  "new_frame = \<lparr> nrows = 3, cols = [(''Age'', FloatCol [Fin 10, NaN, Fin 30])] \<rparr>"

section \<open>Class-balance resampler (\<open>ml_model.py\<close>, \<open>train\<close>)\<close>

text \<open>
  \<open>RecruitmentMLModel.train\<close> balances the training set with
  \<^verbatim>\<open>smote = SMOTE(random_state=42)
X_train_balanced, y_train_balanced = smote.fit_resample(X_train, y_train)\<close>
  The resampler is the class \<open>SMOTE\<close> of the package \<open>imblearn\<close>; only this call is in
  the repository. Its model below follows section 4.3 of the specification. Feature
  vectors are lists of reals, a label is a boolean (\<open>True\<close> for drop-off).
\<close>

type_synonym vec = "real list"

datatype resample_error = InsufficientSamplesError

text \<open>Modelled from the spec: the number of samples of a class (the resampler's code
  is not in the repository).\<close>

definition count_label :: "bool \<Rightarrow> bool list \<Rightarrow> nat" where
  "count_label l y = length (filter (\<lambda>b. b = l) y)"

text \<open>Modelled from the spec: the distance in feature space that orders the neighbours
  (squared Euclidean distance; the resampler's code is not in the repository).\<close>

definition sq_dist :: "vec \<Rightarrow> vec \<Rightarrow> real" where
  "sq_dist a b = sum_list (map2 (\<lambda>x y. (x - y)\<^sup>2) a b)"

text \<open>Modelled from the spec: the interpolation between a minority sample and one of its
  neighbours, at a weight between 0 and 1 (the resampler's code is not in the
  repository).\<close>

definition interpolate :: "real \<Rightarrow> vec \<Rightarrow> vec \<Rightarrow> vec" where
  "interpolate gap a b = map2 (\<lambda>x y. x + min 1 (max 0 gap) * (y - x)) a b"

text \<open>Modelled from the spec: the \<open>k\<close> nearest minority neighbours of the \<open>i\<close>-th
  minority sample, nearest first (the resampler's code is not in the repository).\<close>

definition neighbours :: "nat \<Rightarrow> vec list \<Rightarrow> nat \<Rightarrow> vec list" where
  "neighbours k mins i =
     take k (sort_key (sq_dist (mins ! i)) (take i mins @ drop (Suc i) mins))"

text \<open>Modelled from the spec: the \<open>j\<close>-th synthetic sample. The minority samples are
  taken in turn; the random stream gives, for each synthetic sample, the neighbour to
  pick and the interpolation weight (the resampler's code is not in the repository).\<close>

definition synthetic :: "nat \<Rightarrow> (nat \<Rightarrow> nat \<times> real) \<Rightarrow> vec list \<Rightarrow> nat \<Rightarrow> vec" where
  "synthetic k stream mins j =
     (let i = j mod length mins;
          nbrs = neighbours k mins i
      in case stream j of (pick, gap) \<Rightarrow>
           if nbrs = [] then mins ! i
           else interpolate gap (mins ! i) (nbrs ! (pick mod length nbrs)))"

text \<open>Modelled from the spec: the loop that appends synthetic minority samples
  \<open>until both classes reach equal count\<close> (the resampler's code is not in the
  repository).\<close>

function oversample ::
  "(nat \<Rightarrow> vec) \<Rightarrow> bool \<Rightarrow> nat \<Rightarrow> vec list \<Rightarrow> bool list \<Rightarrow> vec list \<times> bool list" where
  "oversample synth minority j X y =
     (if count_label minority y < count_label (\<not> minority) y
      then oversample synth minority (Suc j) (X @ [synth j]) (y @ [minority])
      else (X, y))"
  by pat_completeness auto
termination
  by (relation "measure (\<lambda>(synth, minority, j, X, y).
        count_label (\<not> minority) y - count_label minority y)")
    (auto simp: count_label_def)

declare oversample.simps [simp del]

text \<open>Modelled from the spec: \<open>resample(X, y) -> (X_balanced, y_balanced)\<close>, the contract
  of section 4.3 (the resampler's code, \<open>imblearn\<close>'s \<open>SMOTE.fit_resample\<close>, is not in the
  repository). The minority label is the one with fewer samples; fewer than two
  minority samples fail with \<open>InsufficientSamplesError\<close>. The random generator is a
  parameter: \<open>generator seed\<close> is the stream of draws of a generator seeded with \<open>seed\<close>
  (\<open>train\<close> fixes the seed to 42), and \<open>k\<close> is the number of neighbours.\<close>

definition resample ::
  "(nat \<Rightarrow> nat \<Rightarrow> nat \<times> real) \<Rightarrow> nat \<Rightarrow> nat \<Rightarrow> vec list \<Rightarrow> bool list
     \<Rightarrow> resample_error + (vec list \<times> bool list)" where
  "resample generator k seed X y =
     (let minority = (count_label True y < count_label False y);
          mins = map fst (filter (\<lambda>(x, l). l = minority) (zip X y))
      in if length mins < 2 then Inl InsufficientSamplesError
         else Inr (oversample (synthetic k (generator seed) mins) minority 0 X y))"

section \<open>Theorems\<close>

subsection \<open>Properties of the rounding to binary64\<close>

lemma round_half_even_of_int: "round_half_even (of_int k) = k"
  by (simp add: round_half_even_def)

lemma round_half_even_error: "\<bar>of_int (round_half_even y) - y\<bar> \<le> 1 / 2"
  unfolding round_half_even_def Let_def by (auto simp: abs_if) linarith+

lemma floor_log2_bounds:
  assumes "0 < x"
  shows "2 powr of_int \<lfloor>log 2 x\<rfloor> \<le> x" and "x < 2 powr (of_int \<lfloor>log 2 x\<rfloor> + 1)"
proof -
  have "of_int \<lfloor>log 2 x\<rfloor> \<le> log 2 x" by simp
  then show "2 powr of_int \<lfloor>log 2 x\<rfloor> \<le> x"
    using assms le_log_iff [of 2 x "of_int \<lfloor>log 2 x\<rfloor>"] by simp
  have "log 2 x < of_int \<lfloor>log 2 x\<rfloor> + 1" by linarith
  then show "x < 2 powr (of_int \<lfloor>log 2 x\<rfloor> + 1)"
    using assms log_less_iff [of 2 x "of_int \<lfloor>log 2 x\<rfloor> + 1"] by simp
qed

lemma floor_log2_range:
  assumes "2 powr of_int lo \<le> x" and "x < 2 powr of_int hi"
  shows "lo \<le> \<lfloor>log 2 x\<rfloor>" and "\<lfloor>log 2 x\<rfloor> < hi"
proof -
  have pos: "0 < x" using assms(1) by (smt (verit) powr_gt_zero)
  from assms(1) pos have "of_int lo \<le> log 2 x" by (simp add: le_log_iff)
  then show "lo \<le> \<lfloor>log 2 x\<rfloor>" by (simp add: le_floor_iff)
  from assms(2) pos have "log 2 x < of_int hi" by (simp add: log_less_iff)
  then show "\<lfloor>log 2 x\<rfloor> < hi" by (simp add: floor_less_iff)
qed


lemma float64_round_of_int:
  assumes "\<bar>k\<bar> < 2 ^ 53"
  shows "float64_round (of_int k) = Fin (of_int k)"
proof (cases "k = 0")
  case True
  then show ?thesis by (simp add: float64_round_def)
next
  case False
  define x :: real where "x = of_int k"
  define e where "e = max (\<lfloor>log 2 \<bar>x\<bar>\<rfloor> - 52) (- 1074)"
  define j where "j = nat (- e)"
  have "1 \<le> \<bar>k\<bar>" using False by simp
  then have "(1::real) \<le> of_int \<bar>k\<bar>" by (simp only: of_int_1_le_iff)
  then have x1: "1 \<le> \<bar>x\<bar>" by (simp add: x_def)
  have "\<bar>x\<bar> < 2 ^ 53" using assms unfolding x_def
    by (metis of_int_abs of_int_less_numeral_power_cancel_iff)
  then have "\<bar>x\<bar> < 2 powr of_int 53" by simp
  moreover have "2 powr of_int (- 1) \<le> \<bar>x\<bar>" using x1 by (simp add: powr_minus)
  ultimately have "\<lfloor>log 2 \<bar>x\<bar>\<rfloor> < 53" by (rule floor_log2_range(2) [rotated])
  then have e0: "e \<le> 0" by (simp add: e_def)
  then have P: "(2::real) powr of_int e = 1 / 2 ^ j"
    using powr_int [of "2::real" e] by (cases "e = 0") (simp_all add: j_def)
  have "x / 2 powr of_int e = of_int (k * 2 ^ j)" by (simp add: P x_def)
  then have "round_half_even (x / 2 powr of_int e) = k * 2 ^ j"
    by (simp only: round_half_even_of_int)
  then have y: "of_int (round_half_even (x / 2 powr of_int e)) * 2 powr of_int e = x"
    by (simp add: P x_def)
  have "\<bar>x\<bar> < 2 ^ 1024" using \<open>\<bar>x\<bar> < 2 ^ 53\<close> by simp
  moreover have "x \<noteq> 0" using x1 by auto
  ultimately have "float64_round x = Fin x"
    unfolding float64_round_def Let_def e_def [symmetric] y by simp
  then show ?thesis by (simp add: x_def)
qed

lemma float64_round_near:
  assumes "2 powr (- 1022) \<le> \<bar>x\<bar>" and "\<bar>x\<bar> \<le> 2 ^ 1023"
  shows "\<exists>y. float64_round x = Fin y \<and> \<bar>y - x\<bar> \<le> \<bar>x\<bar> / 2 ^ 53"
proof -
  define e0 where "e0 = \<lfloor>log 2 \<bar>x\<bar>\<rfloor>"
  define P :: real where "P = 2 powr of_int (e0 - 52)"
  define y where "y = of_int (round_half_even (x / P)) * P"
  have pos: "0 < \<bar>x\<bar>" using assms(1) by (smt (verit) powr_gt_zero)
  have "2 powr of_int (- 1022) \<le> \<bar>x\<bar>" using assms(1) by simp
  moreover have "\<bar>x\<bar> < 2 powr of_int 1024"
  proof -
    have "(2::real) ^ 1023 < 2 ^ 1024" by simp
    with assms(2) show ?thesis by simp
  qed
  ultimately have "- 1022 \<le> e0" unfolding e0_def by (rule floor_log2_range(1))
  then have e: "max (e0 - 52) (- 1074) = e0 - 52" by simp
  have Ppos: "0 < P" by (simp add: P_def)
  have "P = 2 powr of_int e0 * 2 powr (- 52)"
    by (simp add: P_def powr_add [symmetric])
  also have "\<dots> \<le> \<bar>x\<bar> * 2 powr (- 52)"
    using floor_log2_bounds(1) [OF pos] by (simp add: e0_def)
  also have "(2::real) powr (- 52) = 1 / 2 ^ 52" by (simp add: powr_minus_divide)
  finally have Ple: "P \<le> \<bar>x\<bar> / 2 ^ 52" by simp
  have "y - x = (of_int (round_half_even (x / P)) - x / P) * P"
    using Ppos by (simp add: y_def left_diff_distrib)
  then have "\<bar>y - x\<bar> = \<bar>of_int (round_half_even (x / P)) - x / P\<bar> * P"
    using Ppos by (simp add: abs_mult)
  also have "\<dots> \<le> (1 / 2) * P"
    using round_half_even_error [of "x / P"] Ppos by (intro mult_right_mono) auto
  also have "\<dots> \<le> \<bar>x\<bar> / 2 ^ 53" using Ple by simp
  finally have near: "\<bar>y - x\<bar> \<le> \<bar>x\<bar> / 2 ^ 53" .
  have "\<bar>y\<bar> \<le> \<bar>x\<bar> + \<bar>x\<bar> / 2 ^ 53" using near by linarith
  also have "\<dots> \<le> 2 ^ 1023 + 2 ^ 1023 / 2 ^ 53"
    using assms(2) by (intro add_mono divide_right_mono) auto
  also have "\<dots> < 2 ^ 1024" by simp
  finally have "\<not> 2 ^ 1024 \<le> \<bar>y\<bar>" by simp
  moreover have "x \<noteq> 0" using pos by auto
  ultimately have "float64_round x = Fin y"
    unfolding float64_round_def Let_def e0_def [symmetric] e P_def [symmetric] y_def [symmetric]
    by simp
  with near show ?thesis by blast
qed


lemma quotient_gap:
  assumes "b \<noteq> 0" and "\<not> b dvd a"
  shows "1 / \<bar>of_int b\<bar> \<le> \<bar>of_int a / of_int b - (of_int z :: real)\<bar>"
proof -
  have "a - z * b \<noteq> 0" using assms(2) by (metis dvd_triv_right eq_iff_diff_eq_0)
  then have "1 \<le> \<bar>a - z * b\<bar>" by simp
  then have "(1::real) \<le> of_int \<bar>a - z * b\<bar>" by (simp only: of_int_1_le_iff)
  then have one: "(1::real) \<le> \<bar>of_int a - of_int z * of_int b\<bar>" by simp
  have "of_int a / of_int b - (of_int z :: real) = (of_int a - of_int z * of_int b) / of_int b"
    using assms(1) by (simp add: diff_divide_distrib)
  then have "\<bar>of_int a / of_int b - (of_int z :: real)\<bar> =
      \<bar>of_int a - of_int z * of_int b\<bar> / \<bar>of_int b\<bar>"
    by (simp only: abs_divide)
  also have "\<dots> \<ge> 1 / \<bar>of_int b\<bar>"
    using one by (intro divide_right_mono) auto
  finally show ?thesis .
qed

lemma float64_round_quotient:
  assumes "b \<noteq> 0" and "\<bar>a\<bar> < 2 ^ 53" and "\<bar>b\<bar> < 2 ^ 53"
  shows "\<exists>y. float64_round (of_int a / of_int b) = Fin y \<and>
           \<lceil>y\<rceil> = \<lceil>of_int a / (of_int b :: real)\<rceil>"
proof (cases "b dvd a")
  case True
  then obtain k where k: "a = b * k" by (auto simp: dvd_def)
  have "1 \<le> \<bar>b\<bar>" using assms(1) by simp
  then have "1 * \<bar>k\<bar> \<le> \<bar>b\<bar> * \<bar>k\<bar>" by (intro mult_right_mono) simp_all
  then have "\<bar>k\<bar> \<le> \<bar>b\<bar> * \<bar>k\<bar>" by simp
  then have "\<bar>k\<bar> < 2 ^ 53" using assms(2) by (simp add: k abs_mult)
  then have "float64_round (of_int k) = Fin (of_int k)" by (rule float64_round_of_int)
  moreover have "of_int a / (of_int b :: real) = of_int k" using assms(1) by (simp add: k)
  ultimately show ?thesis by simp
next
  case False
  define x :: real where "x = of_int a / of_int b"
  define t :: real where "t = \<bar>of_int b\<bar>"
  have t1: "1 \<le> t"
  proof -
    have "1 \<le> \<bar>b\<bar>" using assms(1) by simp
    then have "(1::real) \<le> of_int \<bar>b\<bar>" by (simp only: of_int_1_le_iff)
    then show ?thesis by (simp add: t_def)
  qed
  have t53: "t < 2 ^ 53"
  proof -
    have "(of_int \<bar>b\<bar> :: real) < 2 ^ 53" using assms(3) by (simp only: of_int_less_numeral_power_cancel_iff)
    then show ?thesis by (simp add: t_def)
  qed
  have a53: "\<bar>of_int a :: real\<bar> < 2 ^ 53"
  proof -
    have "(of_int \<bar>a\<bar> :: real) < 2 ^ 53" using assms(2) by (simp only: of_int_less_numeral_power_cancel_iff)
    then show ?thesis by simp
  qed
  have absx: "\<bar>x\<bar> = \<bar>of_int a\<bar> / t" by (simp add: x_def t_def)
  have gap: "1 / t \<le> \<bar>x - of_int z\<bar>" for z
    unfolding x_def t_def using assms(1) False by (rule quotient_gap)
  have lo: "1 / 2 ^ 53 \<le> \<bar>x\<bar>"
  proof -
    have "(1::real) / 2 ^ 53 \<le> 1 / t" using t1 t53 by (simp add: frac_le)
    also have "\<dots> \<le> \<bar>x\<bar>" using gap [of 0] by simp
    finally show ?thesis .
  qed
  have hi: "\<bar>x\<bar> < 2 ^ 53 / t"
    using a53 t1 by (simp add: absx divide_strict_right_mono)
  have "(2::real) powr (- 1022) \<le> 2 powr (- 53)" by (rule powr_mono) simp_all
  also have "(2::real) powr (- 53) = 1 / 2 ^ 53" by (simp add: powr_minus_divide)
  finally have A: "2 powr (- 1022) \<le> \<bar>x\<bar>" using lo by linarith
  have "2 ^ 53 / t \<le> (2::real) ^ 53" using t1 by (simp add: divide_le_eq)
  also have "(2::real) ^ 53 \<le> 2 ^ 1023" by (rule power_increasing) simp_all
  finally have B: "\<bar>x\<bar> \<le> 2 ^ 1023" using hi by linarith
  from float64_round_near [OF A B] obtain y where
    y: "float64_round x = Fin y" and near: "\<bar>y - x\<bar> \<le> \<bar>x\<bar> / 2 ^ 53" by blast
  have "\<bar>x\<bar> / 2 ^ 53 < (2 ^ 53 / t) / 2 ^ 53"
    using hi by (rule divide_strict_right_mono) simp
  then have close: "\<bar>y - x\<bar> < 1 / t" using near by simp
  have c: "of_int \<lceil>x\<rceil> - 1 < x" "x \<le> of_int \<lceil>x\<rceil>"
    using ceiling_correct [of x] by auto
  have g1: "1 / t \<le> \<bar>x - (of_int \<lceil>x\<rceil> - 1)\<bar>" using gap [of "\<lceil>x\<rceil> - 1"] by simp
  have g2: "1 / t \<le> \<bar>x - of_int \<lceil>x\<rceil>\<bar>" by (rule gap)
  have "of_int \<lceil>x\<rceil> - 1 < y" using g1 c(1) close by linarith
  moreover have "y \<le> of_int \<lceil>x\<rceil>" using g2 c(2) close by linarith
  ultimately have "\<lceil>y\<rceil> = \<lceil>x\<rceil>" by (rule ceiling_unique)
  with y show ?thesis by (simp add: x_def)
qed

lemma float64_round_not_nan: "float64_round x \<noteq> NaN"
  by (simp add: float64_round_def Let_def)

subsection \<open>Test duration\<close>

lemma recommend_test_duration_float:
  assumes "\<bar>2 * n\<bar> < 2 ^ 53" and "x \<noteq> 0"
  shows "py_int (np_ceil (ieee_div (Fin (of_int (n * 2))) (Fin x))) =
           (case float64_round (2 * of_int n / x) of
              Fin q \<Rightarrow> Inr \<lceil>q\<rceil>
            | NaN \<Rightarrow> Inl ValueError
            | PInf \<Rightarrow> Inl OverflowError
            | NInf \<Rightarrow> Inl OverflowError)"
  using assms(2) by (cases "float64_round (2 * of_int n / x)") (simp_all add: mult.commute)

lemma float_of_int_exact:
  assumes "\<bar>k\<bar> < 2 ^ 53"
  shows "float_of_int k = Inr (Fin (of_int k))"
  using float64_round_of_int [OF assms] by (simp add: float_of_int_def)

text \<open>
  Beyond \<open>2\<^sup>5\<^sup>3\<close> the float quotient is not the exact one. With a daily volume of \<open>1\<close>
  and a required sample size of \<open>2\<^sup>5\<^sup>3 + 1\<close> the exact quotient is \<open>2\<^sup>5\<^sup>4 + 2\<close>, which lies
  halfway between two floats and is rounded to \<open>2\<^sup>5\<^sup>4\<close>: that is what the call returns.
\<close>

lemma float64_round_tie: "float64_round 18014398509481986 = Fin 18014398509481984"
proof -
  define x :: real where "x = 18014398509481986"
  have "2 powr of_int 54 \<le> \<bar>x\<bar>" and "\<bar>x\<bar> < 2 powr of_int 55"
    by (simp_all add: x_def)
  then have "54 \<le> \<lfloor>log 2 \<bar>x\<bar>\<rfloor>" and "\<lfloor>log 2 \<bar>x\<bar>\<rfloor> < 55"
    by (rule floor_log2_range)+
  then have "\<lfloor>log 2 \<bar>x\<bar>\<rfloor> = 54" by linarith
  then have e: "max (\<lfloor>log 2 \<bar>x\<bar>\<rfloor> - 52) (- 1074) = 2" by simp
  have P: "(2::real) powr of_int 2 = 4" by simp
  have "\<lfloor>x / 4\<rfloor> = 4503599627370496" by (simp add: x_def floor_eq_iff)
  then have m: "round_half_even (x / 4) = 4503599627370496"
    by (simp add: round_half_even_def x_def)
  have "x \<noteq> 0" by (simp add: x_def)
  then have "float64_round x = Fin 18014398509481984"
    unfolding float64_round_def Let_def e P m by simp
  then show ?thesis by (simp add: x_def)
qed

lemma recommend_test_duration_rounds:
  "recommend_test_duration (PyInt 1) 9007199254740993 = Inr 18014398509481984"
  by (simp add: recommend_test_duration_def py_truediv_def int_true_div_def float64_round_tie)

text \<open>
  C7 (counterexample). The claim says that a daily volume \<open>\<le> 0\<close> makes the call fail.
  With a daily volume of \<open>-1\<close> and a required sample size of \<open>5\<close> the code divides
  \<open>10 / -1\<close>, which is exactly \<open>-10.0\<close>, takes the ceiling and returns \<open>-10\<close>: no error is
  raised.
\<close>

theorem recommend_test_duration_negative_volume_returns:
  "recommend_test_duration (PyInt (- 1)) 5 = Inr (- 10)"
proof -
  have "float64_round (of_int (- 10)) = Fin (of_int (- 10))"
    by (rule float64_round_of_int) simp
  then have "float64_round (- 10) = Fin (- 10)" by simp
  then show ?thesis
    by (simp add: recommend_test_duration_def py_truediv_def int_true_div_def)
qed

text \<open>
  C7 (amended). Let twice the required sample size be below \<open>2\<^sup>5\<^sup>3\<close> in absolute value,
  so that it is a float exactly.
  \<^item> For a daily volume that is a Python integer \<open>d \<noteq> 0\<close>, positive or negative, below
    \<open>2\<^sup>5\<^sup>3\<close> in absolute value, \<open>recommend_test_duration\<close> returns the ceiling of the
    exact quotient \<open>(2 * required_sample_size) / d\<close>: the rounding of the float
    division does not move the quotient across an integer.
  \<^item> For a daily volume of zero it fails: with \<open>ZeroDivisionError\<close> when the zero is a
    Python integer or float, and, when it is a numpy float, with \<open>OverflowError\<close> from
    \<open>int(inf)\<close> (\<open>ValueError\<close> from \<open>int(nan)\<close> when the required sample size is zero too).
  \<^item> For a non-zero finite float daily volume \<open>x\<close> it returns the ceiling of the
    binary64 quotient of \<open>2 * required_sample_size\<close> and \<open>x\<close>, and fails with
    \<open>OverflowError\<close> when that quotient is an infinity.
  The code has no \<open>ZeroThroughputError\<close> and no guard on the sign.
\<close>

theorem recommend_test_duration_amended:
  assumes "\<bar>2 * n\<bar> < 2 ^ 53"
  shows "(d \<noteq> 0 \<and> \<bar>d\<bar> < 2 ^ 53 \<longrightarrow>
            recommend_test_duration (PyInt d) n = Inr \<lceil>(2 * of_int n) / (of_int d :: real)\<rceil>) \<and>
         recommend_test_duration (PyInt 0) n = Inl ZeroDivisionError \<and>
         recommend_test_duration (PyFloat (Fin 0)) n = Inl ZeroDivisionError \<and>
         recommend_test_duration (NpFloat (Fin 0)) n =
           Inl (if n = 0 then ValueError else OverflowError) \<and>
         (x \<noteq> 0 \<longrightarrow>
            recommend_test_duration (PyFloat (Fin x)) n =
              (case float64_round (2 * of_int n / x) of
                 Fin q \<Rightarrow> Inr \<lceil>q\<rceil> | NaN \<Rightarrow> Inl ValueError
               | PInf \<Rightarrow> Inl OverflowError | NInf \<Rightarrow> Inl OverflowError) \<and>
            recommend_test_duration (NpFloat (Fin x)) n =
              recommend_test_duration (PyFloat (Fin x)) n \<and>
            float64_round (2 * of_int n / x) \<noteq> NaN)"
proof -
  have total: "\<bar>n * 2\<bar> < 2 ^ 53" using assms by (simp add: mult.commute)
  note conv = float_of_int_exact [OF total]
  have int_case: "recommend_test_duration (PyInt d) n = Inr \<lceil>(2 * of_int n) / (of_int d :: real)\<rceil>"
    if "d \<noteq> 0" "\<bar>d\<bar> < 2 ^ 53"
  proof -
    from float64_round_quotient [OF that(1) total that(2)] obtain y where
      y: "float64_round (of_int (n * 2) / of_int d) = Fin y"
      and c: "\<lceil>y\<rceil> = \<lceil>of_int (n * 2) / (of_int d :: real)\<rceil>" by blast
    have "recommend_test_duration (PyInt d) n = Inr \<lceil>y\<rceil>"
      using that(1) y by (simp add: recommend_test_duration_def py_truediv_def int_true_div_def)
    with c show ?thesis by (simp add: mult.commute)
  qed
  have zero_int: "recommend_test_duration (PyInt 0) n = Inl ZeroDivisionError"
    by (simp add: recommend_test_duration_def py_truediv_def int_true_div_def)
  have zero_float: "recommend_test_duration (PyFloat (Fin 0)) n = Inl ZeroDivisionError"
    by (simp add: recommend_test_duration_def py_truediv_def conv)
  have zero_numpy: "recommend_test_duration (NpFloat (Fin 0)) n =
      Inl (if n = 0 then ValueError else OverflowError)"
    by (simp add: recommend_test_duration_def py_truediv_def conv)
  have float_case: "recommend_test_duration (PyFloat (Fin x)) n =
      (case float64_round (2 * of_int n / x) of
         Fin q \<Rightarrow> Inr \<lceil>q\<rceil> | NaN \<Rightarrow> Inl ValueError
       | PInf \<Rightarrow> Inl OverflowError | NInf \<Rightarrow> Inl OverflowError)"
    and numpy_case: "recommend_test_duration (NpFloat (Fin x)) n =
      recommend_test_duration (PyFloat (Fin x)) n" if "x \<noteq> 0"
    using that recommend_test_duration_float [OF assms that]
    by (simp_all add: recommend_test_duration_def py_truediv_def conv)
  show ?thesis
    using int_case zero_int zero_float zero_numpy float_case numpy_case
      float64_round_not_nan [of "2 * of_int n / x"]
    by blast
qed

theorem recommend_test_duration_amended_witness:
  "\<bar>2 * (5::int)\<bar> < 2 ^ 53 \<and> (3::int) \<noteq> 0 \<and> \<bar>3::int\<bar> < 2 ^ 53 \<and> (5 / 2 :: real) \<noteq> 0 \<and>
   recommend_test_duration (PyInt 3) 5 = Inr 4 \<and>
   recommend_test_duration (PyInt (- 3)) 5 = Inr (- 3) \<and>
   recommend_test_duration (PyInt 0) 5 = Inl ZeroDivisionError \<and>
   recommend_test_duration (PyFloat (Fin 0)) 5 = Inl ZeroDivisionError \<and>
   recommend_test_duration (NpFloat (Fin 0)) 5 = Inl OverflowError \<and>
   recommend_test_duration (PyFloat (Fin (5 / 2))) 5 = Inr 4 \<and>
   recommend_test_duration (NpFloat (Fin (5 / 2))) 5 = Inr 4"
proof -
  have b: "\<bar>2 * (5::int)\<bar> < 2 ^ 53" by simp
  have c1: "\<lceil>(2 * of_int 5) / (of_int 3 :: real)\<rceil> = 4"
    by (simp add: ceiling_eq_iff)
  have c2: "\<lceil>(2 * of_int 5) / (of_int (- 3) :: real)\<rceil> = - 3"
    by (simp add: ceiling_eq_iff)
  have "float64_round (of_int 4) = Fin (of_int 4)"
    by (rule float64_round_of_int) simp
  then have r: "float64_round (2 * of_int 5 / (5 / 2)) = Fin 4" by simp
  show ?thesis
    using recommend_test_duration_amended [OF b, of 3 "5 / 2"]
      recommend_test_duration_amended [OF b, of "- 3" "5 / 2"] c1 c2 r
    by simp
qed

subsection \<open>The chi-square p-value at the statistic \<open>361 / 48\<close>\<close>

lemma erf_coeff_nonneg: "0 \<le> u \<Longrightarrow> 0 \<le> erf_coeff u n"
  by (simp add: erf_coeff_def)

lemma erf_coeff_tendsto_0:
  assumes "0 \<le> u"
  shows "erf_coeff u \<longlonglongrightarrow> 0"
proof (rule real_tendsto_sandwich [where f = "\<lambda>_. 0" and h = "\<lambda>n. inverse (fact n) * u ^ n"])
  show "\<forall>\<^sub>F n in sequentially. 0 \<le> erf_coeff u n"
    using assms by (simp add: erf_coeff_nonneg)
  show "\<forall>\<^sub>F n in sequentially. erf_coeff u n \<le> inverse (fact n) * u ^ n"
  proof (rule always_eventually, rule allI)
    fix n
    have "u ^ n / (fact n * real (2 * n + 1)) \<le> u ^ n / (fact n * 1)"
      using assms by (intro divide_left_mono mult_left_mono) auto
    then show "erf_coeff u n \<le> inverse (fact n) * u ^ n"
      by (simp add: erf_coeff_def field_simps)
  qed
  show "(\<lambda>_. 0::real) \<longlonglongrightarrow> 0" by simp
  show "(\<lambda>n. inverse (fact n) * u ^ n) \<longlonglongrightarrow> 0"
    by (rule summable_LIMSEQ_zero [OF summable_exp])
qed

lemma erf_coeff_decreasing:
  assumes "0 \<le> u" "u \<le> 4" "2 \<le> m"
  shows "erf_coeff u (Suc m) \<le> erf_coeff u m"
proof -
  have "2 \<le> real m" using \<open>2 \<le> m\<close> by simp
  then have "0 \<le> (real m - 2) * (2 * real m + 1) + 1" by simp
  then have "4 * (2 * real m + 1) \<le> (real m + 1) * (2 * real m + 3)"
    by (simp add: algebra_simps)
  moreover have "u * (2 * real m + 1) \<le> 4 * (2 * real m + 1)"
    using assms by (intro mult_right_mono) auto
  ultimately have key: "u * (2 * real m + 1) \<le> (real m + 1) * (2 * real m + 3)"
    by linarith
  have "(u ^ m * fact m) * (u * (2 * real m + 1)) \<le> (u ^ m * fact m) * ((real m + 1) * (2 * real m + 3))"
    using assms by (intro mult_left_mono key) auto
  then have "u ^ Suc m * (fact m * real (2 * m + 1)) \<le> u ^ m * (fact (Suc m) * real (2 * Suc m + 1))"
    by (simp add: algebra_simps)
  moreover have "0 < fact m * real (2 * m + 1)" "0 < fact (Suc m) * real (2 * Suc m + 1)"
    by simp_all
  ultimately show ?thesis
    unfolding erf_coeff_def by (simp only: pos_divide_le_eq pos_le_divide_eq times_divide_eq_left)
qed


lemma erf_series_lower:
  assumes "0 \<le> u" "u \<le> 4"
  shows "summable (\<lambda>n. (- 1) ^ n * erf_coeff u n)"
    and "erf_coeff u 0 - erf_coeff u 1 + erf_coeff u 2 - erf_coeff u 3 + erf_coeff u 4
         - erf_coeff u 5 + erf_coeff u 6 - erf_coeff u 7 + erf_coeff u 8 - erf_coeff u 9
         \<le> (\<Sum>n. (- 1) ^ n * erf_coeff u n)"
proof -
  let ?b = "\<lambda>n. erf_coeff u (n + 2)"
  let ?f = "\<lambda>n. (- 1) ^ n * erf_coeff u n"
  have lim: "?b \<longlonglongrightarrow> 0"
    using erf_coeff_tendsto_0 [OF assms(1)] by (rule LIMSEQ_ignore_initial_segment)
  have pos: "\<And>n. 0 \<le> ?b n"
    using assms by (simp add: erf_coeff_nonneg)
  have mono: "\<And>n. ?b (Suc n) \<le> ?b n"
    using erf_coeff_decreasing [OF assms] by simp
  have shift: "\<And>n. ?f (n + 2) = (- 1) ^ n * ?b n"
    by simp
  have summ_b: "summable (\<lambda>n. (- 1) ^ n * ?b n)"
    using summable_Leibniz'(1) [OF lim pos mono] .
  then have "summable (\<lambda>n. ?f (n + 2))"
    by (simp only: shift)
  then show summ: "summable ?f"
    by (rule summable_iff_shift [of ?f 2, THEN iffD1])
  have s8: "{..<2 * 4 :: nat} = {0, 1, 2, 3, 4, 5, 6, 7}" by auto
  have s2: "{..<2 :: nat} = {0, 1}" by auto
  have "(\<Sum>i<2 * 4. (- 1) ^ i * ?b i) \<le> (\<Sum>i. (- 1) ^ i * ?b i)"
    using summable_Leibniz'(2) [OF lim pos mono] .
  then have tail: "?b 0 - ?b 1 + ?b 2 - ?b 3 + ?b 4 - ?b 5 + ?b 6 - ?b 7 \<le> (\<Sum>i. ?f (i + 2))"
    unfolding s8 shift by simp
  have "suminf ?f = (\<Sum>n. ?f (n + 2)) + (\<Sum>i<2. ?f i)"
    by (rule suminf_split_initial_segment [OF summ])
  then have "suminf ?f = (\<Sum>n. ?f (n + 2)) + (erf_coeff u 0 - erf_coeff u 1)"
    unfolding s2 by simp
  with tail show "erf_coeff u 0 - erf_coeff u 1 + erf_coeff u 2 - erf_coeff u 3 + erf_coeff u 4
         - erf_coeff u 5 + erf_coeff u 6 - erf_coeff u 7 + erf_coeff u 8 - erf_coeff u 9
         \<le> suminf ?f"
    by (simp add: eval_nat_numeral)
qed

lemma erf_partial_value:
  "(897 / 2000 :: real) \<le> erf_coeff (361 / 96) 0 - erf_coeff (361 / 96) 1 + erf_coeff (361 / 96) 2
     - erf_coeff (361 / 96) 3 + erf_coeff (361 / 96) 4 - erf_coeff (361 / 96) 5
     + erf_coeff (361 / 96) 6 - erf_coeff (361 / 96) 7 + erf_coeff (361 / 96) 8
     - erf_coeff (361 / 96) 9"
  by (simp add: erf_coeff_def fact_numeral power_divide)


lemma pi_less_33_10: "pi < 33 / 10"
proof (rule ccontr)
  assume "\<not> pi < 33 / 10"
  then have h: "(33 / 20 :: real) \<le> pi / 2" by simp
  have "0 \<le> cos (33 / 20 :: real)"
    by (rule cos_ge_zero) (use h in auto)
  moreover
  obtain t :: real where t: "cos (33 / 20) = (\<Sum>m<6. cos_coeff m * (33 / 20) ^ m)
      + (cos (t + 1 / 2 * real 6 * pi) / fact 6) * (33 / 20) ^ 6"
    using Maclaurin_cos_expansion2 [of "33 / 20" 6] by auto
  have "cos (t + 1 / 2 * real 6 * pi) \<le> 1" by simp
  then have "(cos (t + 1 / 2 * real 6 * pi) / fact 6) * (33 / 20) ^ 6 \<le> (1 / fact 6) * (33 / 20 :: real) ^ 6"
    by (intro mult_right_mono divide_right_mono) auto
  moreover have "(\<Sum>m<6. cos_coeff m * (33 / 20 :: real) ^ m) + (1 / fact 6) * (33 / 20) ^ 6 < 0"
  proof -
    have "{..<6::nat} = {0, 1, 2, 3, 4, 5}" by auto
    then show ?thesis by (simp add: cos_coeff_def fact_numeral power_divide)
  qed
  ultimately show False using t by linarith
qed

lemma erf_sqrt:
  assumes "0 \<le> u" "u \<le> 4"
  shows "erf (sqrt u) = 2 / sqrt pi * (sqrt u * (\<Sum>n. (- 1) ^ n * erf_coeff u n))"
proof -
  have "\<And>n. (- 1) ^ n * sqrt u ^ (2 * n + 1) / (fact n * real (2 * n + 1))
          = sqrt u * ((- 1) ^ n * erf_coeff u n)"
    using assms by (simp add: erf_coeff_def power_mult)
  then have "(\<Sum>n. (- 1) ^ n * sqrt u ^ (2 * n + 1) / (fact n * real (2 * n + 1)))
          = (\<Sum>n. sqrt u * ((- 1) ^ n * erf_coeff u n))"
    by simp
  also have "\<dots> = sqrt u * (\<Sum>n. (- 1) ^ n * erf_coeff u n)"
    by (rule suminf_mult) (rule erf_series_lower(1) [OF assms])
  finally show ?thesis by (simp add: erf_def)
qed

lemma erf_at_statistic: "19 / 20 < erf (sqrt (361 / 96))"
proof -
  let ?u = "361 / 96 :: real"
  let ?S = "\<Sum>n. (- 1) ^ n * erf_coeff ?u n"
  have u: "0 \<le> ?u" "?u \<le> 4" by simp_all
  have S: "897 / 2000 \<le> ?S"
    using erf_partial_value erf_series_lower(2) [OF u] by linarith
  have "sqrt pi < sqrt (33 / 10)"
    using pi_less_33_10 by simp
  moreover have "19 / 20 * sqrt (33 / 10) < 2 * (sqrt ?u * (897 / 2000))"
  proof (rule power2_less_imp_less)
    show "(19 / 20 * sqrt (33 / 10))\<^sup>2 < (2 * (sqrt ?u * (897 / 2000)))\<^sup>2"
      by (simp add: power_mult_distrib power_divide)
    show "0 \<le> 2 * (sqrt ?u * (897 / 2000))" by simp
  qed
  ultimately have "19 / 20 * sqrt pi < 2 * (sqrt ?u * (897 / 2000))"
    by linarith
  also have "\<dots> \<le> 2 * (sqrt ?u * ?S)"
    using S by (intro mult_left_mono) auto
  finally have "19 / 20 * sqrt pi < 2 * (sqrt ?u * ?S)" .
  then have "19 / 20 < 2 * (sqrt ?u * ?S) / sqrt pi"
    by (simp add: pos_less_divide_eq)
  then show ?thesis
    unfolding erf_sqrt [OF u] by (simp add: field_simps)
qed

lemma chi2_sf1_at_statistic: "chi2_sf1 (361 / 48) < 1 / 20"
proof -
  have "sqrt (361 / 48 / 2) = sqrt (361 / 96 :: real)" by simp
  then show ?thesis
    using erf_at_statistic by (simp add: chi2_sf1_def)
qed

lemma chi2_contingency_50_70:
  "chi2_contingency ((50, 50), (70, 30)) =
     Inr (Fin (361 / 48), Fin (chi2_sf1 (361 / 48)), 1, ((Fin 60, Fin 40), (Fin 60, Fin 40)))"
  by (simp add: chi2_contingency_def expected_freq_def yates_def pearson_term_def fl_sub_def
      Let_def)

subsection \<open>Significance test\<close>

text \<open>
  C1. Whenever \<open>calculate_statistical_significance\<close> returns a result for group totals
  that are both positive, \<open>chi2_contingency\<close> has returned a p-value for the 2x2 table
  \<open>{success, failure} x {control, treatment}\<close>, that p-value is the result's \<open>p_value\<close>,
  and \<open>is_significant\<close> is true exactly when the p-value is strictly below \<open>alpha\<close>.
  In particular \<open>significance(50, 100, 70, 100)\<close> at \<open>alpha = 0.05\<close> returns
  \<open>control_rate = 0.50\<close>, \<open>treatment_rate = 0.70\<close> and \<open>is_significant = True\<close>: the
  Yates-corrected statistic is \<open>361 / 48\<close> and its p-value is below \<open>0.05\<close>.
\<close>

theorem significance_iff_p_value_below_alpha:
  "(\<forall>cs ct ts tt al r.
       0 < ct \<longrightarrow> 0 < tt \<longrightarrow>
       calculate_statistical_significance cs ct ts tt al = Inr r \<longrightarrow>
       (\<exists>chi2 p dof ex.
           chi2_contingency ((cs, ct - cs), (ts, tt - ts)) = Inr (chi2, p, dof, ex) \<and>
           p_value r = p \<and>
           (is_significant r \<longleftrightarrow> fl_less p (Fin al)))) \<and>
   (\<exists>r. calculate_statistical_significance 50 100 70 100 (5 / 100) = Inr r \<and>
        control_rate r = 50 / 100 \<and> treatment_rate r = 70 / 100 \<and> is_significant r)"
proof (intro conjI allI impI)
  fix cs ct ts tt :: int and al :: real and r :: sig_result
  assume "0 < ct" "0 < tt"
    and "calculate_statistical_significance cs ct ts tt al = Inr r"
  then show "\<exists>chi2 p dof ex.
      chi2_contingency ((cs, ct - cs), (ts, tt - ts)) = Inr (chi2, p, dof, ex) \<and>
      p_value r = p \<and> (is_significant r \<longleftrightarrow> fl_less p (Fin al))"
    by (auto simp: calculate_statistical_significance_def true_div_def Let_def
        split: sum.splits prod.splits if_splits)
next
  have "(50 - 50 :: int) = 0" "(100 - 50 :: int) = 50" "(100 - 70 :: int) = 30"
    by simp_all
  then show "\<exists>r. calculate_statistical_significance 50 100 70 100 (5 / 100) = Inr r \<and>
      control_rate r = 50 / 100 \<and> treatment_rate r = 70 / 100 \<and> is_significant r"
    using chi2_sf1_at_statistic
    by (simp add: calculate_statistical_significance_def chi2_contingency_50_70 true_div_def
        Let_def)
qed

theorem significance_iff_p_value_below_alpha_witness:
  "(0::int) < 100 \<and>
   (\<exists>r. calculate_statistical_significance 50 100 51 100 (5 / 100) = Inr r \<and>
        (\<exists>chi2 p dof ex.
            chi2_contingency ((50, 100 - 50), (51, 100 - 51)) = Inr (chi2, p, dof, ex) \<and>
            p_value r = p \<and> (is_significant r \<longleftrightarrow> fl_less p (Fin (5 / 100)))))"
proof -
  obtain r where r: "calculate_statistical_significance 50 100 51 100 (5 / 100) = Inr r"
    by (simp add: calculate_statistical_significance_def chi2_contingency_def
        expected_freq_def true_div_def Let_def)
  show ?thesis
    using significance_iff_p_value_below_alpha
      [THEN conjunct1, rule_format, of 100 100 50 51 "5 / 100" r] r
    by simp
qed

text \<open>
  C9. With both totals positive and no success in the control group the call never
  raises \<open>ZeroDivisionError\<close>, every result it returns has \<open>relative_improvement = 0\<close>,
  and it does return a result whenever the treatment successes lie in
  \<open>1 .. treatment_total\<close> (otherwise \<open>chi2_contingency\<close> rejects the table): the
  division by the control proportion is guarded by \<open>p1 > 0\<close>.
\<close>

theorem relative_improvement_guarded:
  assumes "0 < ct" and "0 < tt"
  shows "calculate_statistical_significance 0 ct ts tt al \<noteq> Inl ZeroDivisionError \<and>
         (\<forall>r. calculate_statistical_significance 0 ct ts tt al = Inr r \<longrightarrow>
              relative_improvement r = 0) \<and>
         (0 < ts \<and> ts \<le> tt \<longrightarrow>
            (\<exists>r. calculate_statistical_significance 0 ct ts tt al = Inr r))"
proof (intro conjI allI impI)
  show "calculate_statistical_significance 0 ct ts tt al \<noteq> Inl ZeroDivisionError"
    using assms
    by (auto simp: calculate_statistical_significance_def chi2_contingency_def true_div_def
        Let_def split: sum.splits prod.splits if_splits)
next
  fix r
  assume "calculate_statistical_significance 0 ct ts tt al = Inr r"
  then show "relative_improvement r = 0"
    using assms
    by (auto simp: calculate_statistical_significance_def true_div_def Let_def
        split: sum.splits prod.splits if_splits)
next
  assume ts: "0 < ts \<and> ts \<le> tt"
  then have "ct * ts \<noteq> 0" "ct * (ct + (tt - ts)) \<noteq> 0" "tt * ts \<noteq> 0"
    "tt * (ct + (tt - ts)) \<noteq> 0" "ct + tt \<noteq> 0"
    using assms by auto
  then show "\<exists>r. calculate_statistical_significance 0 ct ts tt al = Inr r"
    using assms ts
    by (simp add: calculate_statistical_significance_def chi2_contingency_def
        expected_freq_def true_div_def Let_def)
qed

theorem relative_improvement_guarded_witness:
  "(0::int) < 100 \<and>
   calculate_statistical_significance 0 100 10 100 (5 / 100) \<noteq> Inl ZeroDivisionError \<and>
   (\<exists>r. calculate_statistical_significance 0 100 10 100 (5 / 100) = Inr r \<and>
        relative_improvement r = 0)"
  using relative_improvement_guarded [of 100 100 10 "5 / 100"] by auto

subsection \<open>Simulated intervention\<close>

lemma bool_mean_cases:
  "bool_mean flags = NaN \<and> flags = [] \<or>
   (\<exists>b. bool_mean flags = Fin b \<and> 0 \<le> b \<and> b \<le> 1 \<and> flags \<noteq> [])"
proof (cases "flags = []")
  case True
  then show ?thesis by (simp add: bool_mean_def bool_sum_def)
next
  case False
  have "length (filter id flags) \<le> length flags" by simp
  then have "real (length (filter id flags)) / real (length flags) \<le> 1"
    using False by (simp add: divide_le_eq)
  then show ?thesis using False by (simp add: bool_mean_def bool_sum_def)
qed

lemma capped_rate_finite:
  assumes "py_int (fl_mul (Fin k) (py_min (fl_mul (bool_mean flags) (Fin (1 + i))) (Fin 1))) = Inr e"
  shows "\<exists>b. bool_mean flags = Fin b \<and>
           py_min (fl_mul (bool_mean flags) (Fin (1 + i))) (Fin 1) = Fin (min (b * (1 + i)) 1)"
  using bool_mean_cases [of flags] assms
  by (auto simp: py_min_def min_def)

text \<open>
  C10. Every result that \<open>simulate_intervention\<close> returns for an improvement rate
  \<open>\<ge> 0\<close> has a finite baseline pass rate \<open>b\<close> and a finite new pass rate that equals
  \<open>min (b * (1 + improvement_rate)) 1\<close>, hence is at most \<open>1\<close>. (For a stage without
  rows the pass rate is \<open>nan\<close> and the call raises instead of returning.)
\<close>

theorem new_pass_rate_capped:
  assumes "0 \<le> improvement_rate"
    and "simulate_intervention choice df stage_name improvement_rate n = Inr r"
  shows "\<exists>b x. baseline_pass_rate r = Fin b \<and> new_pass_rate r = Fin x \<and>
           x = min (b * (1 + improvement_rate)) 1 \<and> x \<le> 1"
  using assms(2)
  by (auto simp: simulate_intervention_def Let_def split: sum.splits
      dest!: capped_rate_finite)

theorem new_pass_rate_capped_witness:
  "(0::real) \<le> 3 \<and>
   (\<exists>r. simulate_intervention (\<lambda>_ _. [])
          \<lparr> nrows = 3,
            cols = [(''Stage'', ObjCol [Some ''Screening'', Some ''Screening'', Some ''Offer'']),
                    (''Status'', ObjCol [Some ''Passed'', Some ''Rejected'', Some ''Hired''])] \<rparr>
          ''Screening'' 3 None = Inr r \<and>
        baseline_pass_rate r = Fin (1 / 2) \<and> new_pass_rate r = Fin 1)"
proof -
  let ?df = "\<lparr> nrows = 3,
            cols = [(''Stage'', ObjCol [Some ''Screening'', Some ''Screening'', Some ''Offer'']),
                    (''Status'', ObjCol [Some ''Passed'', Some ''Rejected'', Some ''Hired''])] \<rparr>"
  obtain r where r: "simulate_intervention (\<lambda>_ _. []) ?df ''Screening'' 3 None = Inr r"
    and b: "baseline_pass_rate r = Fin (1 / 2)"
    by (simp add: simulate_intervention_def df_get_def df_select_def select_def col_ne_str_def
        bool_mean_def bool_sum_def py_min_def Let_def)
  have "(0::real) \<le> 3" by simp
  from new_pass_rate_capped [OF this r] b have "new_pass_rate r = Fin 1"
    by auto
  with r b show ?thesis by auto
qed

subsection \<open>Frames and references\<close>

lemma map_of_assign: "map_of (assign name c ps) = (map_of ps)(name \<mapsto> c)"
  by (induction ps) (auto simp: fun_eq_iff)

lemma df_get_df_set: "df_get (df_set df name c) name' = (if name' = name then Inr c else df_get df name')"
  by (simp add: df_get_def df_set_def map_of_assign)

lemma sort_example: "sort (remdups [''b'', ''a'', ''b'']) = [''a'', ''b'']"
  by code_simp

lemma create_features_funnel:
  "create_features float_str Map.empty 0 [funnel] =
     (Inr 1, [''Source'' \<mapsto> [''a'', ''b'']], [funnel, funnel_features])"
  by (simp add: create_features_def df_copy_def feature_stmts_def categorical_cols_def
      funnel_def funnel_features_def encode_col_def when_cols_def set_col_def with_col_def
      has_col_def df_get_def df_set_def fit_transform_def sort_example col_div_def
      col_flag_def astype_int_def fl_le_def source_success_rate_def Let_def)

subsection \<open>Target labeler\<close>

text \<open>
  C5. For a frame with a \<open>Status\<close> column, \<open>create_target_variable\<close> returns a frame
  whose \<open>will_drop_off\<close> column holds, record by record, \<open>1\<close> where the status is the string
  \<open>'Rejected'\<close> and \<open>0\<close> everywhere else. The function takes the frame and nothing
  else (no object state), the labels are a function of the status cells alone, and a
  second application, to the same input or to its own output, yields the same labels.
\<close>

theorem target_labels:
  assumes "df < length h" and "df_get (h ! df) ''Status'' = Inr status"
  shows "\<exists>rt h'. create_target_variable df h = (Inr rt, h') \<and>
           df_get (h' ! rt) ''will_drop_off'' =
             Inr (IntCol (map (\<lambda>x. if x = Some (StrC ''Rejected'') then 1 else 0)
                              (cells status))) \<and>
           (\<exists>rt2 h2. create_target_variable df h' = (Inr rt2, h2) \<and>
              df_get (h2 ! rt2) ''will_drop_off'' = df_get (h' ! rt) ''will_drop_off'') \<and>
           (\<exists>rt3 h3. create_target_variable rt h' = (Inr rt3, h3) \<and>
              df_get (h3 ! rt3) ''will_drop_off'' = df_get (h' ! rt) ''will_drop_off'')"
proof -
  have "map (\<lambda>b. if b then 1 else 0) (col_eq_str status ''Rejected'') =
        map (\<lambda>x. if x = Some (StrC ''Rejected'') then 1 else (0::int)) (cells status)"
    by (cases status) (auto simp: comp_def)
  then show ?thesis
    using assms
    by (simp add: create_target_variable_def df_copy_def nth_append df_get_df_set
        astype_int_def)
qed

theorem target_labels_witness:
  "(0::nat) < length [funnel] \<and>
   df_get ([funnel] ! 0) ''Status'' =
     Inr (ObjCol [Some ''Hired'', Some ''Rejected'', Some ''Passed'']) \<and>
   (\<exists>rt h'. create_target_variable 0 [funnel] = (Inr rt, h') \<and>
      df_get (h' ! rt) ''will_drop_off'' = Inr (IntCol [0, 1, 0]))"
proof -
  have s: "df_get ([funnel] ! 0) ''Status'' =
      Inr (ObjCol [Some ''Hired'', Some ''Rejected'', Some ''Passed''])"
    by (simp add: funnel_def df_get_def)
  have "(0::nat) < length [funnel]" by simp
  from target_labels [OF this s] s show ?thesis by auto
qed

subsection \<open>The input frame is left as it was\<close>

text \<open>
  C8. \<open>create_features\<close> and \<open>create_target_variable\<close> work on a copy: whether they
  return or raise, the frame behind the argument, and every other frame that existed
  before the call, has the value it had before; the frame that is returned is a new
  object.
\<close>

theorem input_frame_unchanged:
  assumes "df < length h"
  shows "snd (snd (create_features float_str enc df h)) ! df = h ! df \<and>
         (\<forall>q < length h. snd (snd (create_features float_str enc df h)) ! q = h ! q) \<and>
         (\<forall>rf. fst (create_features float_str enc df h) = Inr rf \<longrightarrow> rf = length h) \<and>
         snd (create_target_variable df h) ! df = h ! df \<and>
         (\<forall>q < length h. snd (create_target_variable df h) ! q = h ! q) \<and>
         (\<forall>rt. fst (create_target_variable df h) = Inr rt \<longrightarrow> rt = length h)"
proof -
  have "snd (snd (create_features float_str enc df h)) ! q = h ! q" if "q < length h" for q
    using that
    by (auto simp: create_features_def df_copy_def nth_append
        split: sum.splits prod.splits option.splits)
  moreover have "snd (create_target_variable df h) ! q = h ! q" if "q < length h" for q
    using that
    by (auto simp: create_target_variable_def df_copy_def nth_append split: sum.splits)
  moreover have "rf = length h" if "fst (create_features float_str enc df h) = Inr rf" for rf
    using that
    by (auto simp: create_features_def df_copy_def split: sum.splits prod.splits option.splits)
  moreover have "rt = length h" if "fst (create_target_variable df h) = Inr rt" for rt
    using that
    by (auto simp: create_target_variable_def df_copy_def split: sum.splits)
  ultimately show ?thesis using assms by blast
qed

theorem input_frame_unchanged_witness:
  "(0::nat) < length [funnel] \<and>
   fst (create_features (\<lambda>_. ''nan'') Map.empty 0 [funnel]) = Inr 1 \<and>
   snd (snd (create_features (\<lambda>_. ''nan'') Map.empty 0 [funnel])) ! 0 = funnel \<and>
   snd (snd (create_features (\<lambda>_. ''nan'') Map.empty 0 [funnel])) ! 1 = funnel_features \<and>
   snd (create_target_variable 0 [funnel]) ! 0 = funnel"
  using input_frame_unchanged [of 0 "[funnel]" "\<lambda>_. ''nan''" Map.empty]
  by (simp add: create_features_funnel)

subsection \<open>Encoding the fitting data again\<close>

lemma replayable_set_col: "replayable (set_col name g)"
  by (auto simp: replayable_def set_col_def split: sum.splits)

lemma transform_after_fit:
  "transform (sort (remdups ys)) ys = Inr (snd (fit_transform ys))"
  by (simp add: transform_def fit_transform_def Let_def)

lemma replayable_encode_col: "replayable (encode_col fs col)"
  unfolding replayable_def
proof (intro allI impI)
  fix enc d enc' d'
  assume run: "encode_col fs col (enc, d) = (None, (enc', d'))"
  show "enc \<subseteq>\<^sub>m enc' \<and> (\<forall>E. enc' \<subseteq>\<^sub>m E \<longrightarrow> encode_col fs col (E, d) = (None, (E, d')))"
  proof (cases "map_of (cols d) col")
    case None
    with run show ?thesis by (simp add: encode_col_def)
  next
    case (Some c)
    show ?thesis
    proof (cases "enc col")
      case None
      with Some run have enc': "enc' = enc(col \<mapsto> sort (remdups (astype_str fs c)))"
        and d': "d' = df_set d (col @ ''_encoded'') (snd (fit_transform (astype_str fs c)))"
        by (auto simp: encode_col_def fit_transform_def Let_def)
      have "enc \<subseteq>\<^sub>m enc'"
        using None enc' by (auto simp: map_le_def)
      moreover have "encode_col fs col (E, d) = (None, (E, d'))" if "enc' \<subseteq>\<^sub>m E" for E
      proof -
        have "E col = Some (sort (remdups (astype_str fs c)))"
          using that enc' by (auto simp: map_le_def dom_def)
        then show ?thesis
          using Some d' by (simp add: encode_col_def transform_after_fit)
      qed
      ultimately show ?thesis by blast
    next
      case (Some classes)
      with \<open>map_of (cols d) col = Some c\<close> run
      obtain codes where t: "transform classes (astype_str fs c) = Inr codes"
        and enc': "enc' = enc" and d': "d' = df_set d (col @ ''_encoded'') codes"
        by (auto simp: encode_col_def split: sum.splits)
      have "encode_col fs col (E, d) = (None, (E, d'))" if "enc' \<subseteq>\<^sub>m E" for E
      proof -
        have "E col = Some classes"
          using that enc' Some by (auto simp: map_le_def dom_def)
        then show ?thesis
          using \<open>map_of (cols d) col = Some c\<close> t d' by (simp add: encode_col_def)
      qed
      then show ?thesis using enc' by simp
    qed
  qed
qed

lemma replayable_block:
  assumes "\<And>f. f \<in> set fs \<Longrightarrow> replayable f"
  shows "replayable (block fs)"
  using assms
proof (induction fs)
  case Nil
  then show ?case by (simp add: replayable_def)
next
  case (Cons f fs)
  have f: "replayable f" and rest: "replayable (block fs)"
    using Cons by simp_all
  show ?case
    unfolding replayable_def
  proof (intro allI impI)
    fix enc d enc' d'
    assume run: "block (f # fs) (enc, d) = (None, (enc', d'))"
    then obtain enc1 d1 where s1: "f (enc, d) = (None, (enc1, d1))"
      and s2: "block fs (enc1, d1) = (None, (enc', d'))"
      by (auto split: prod.splits option.splits)
    from f s1 have a: "enc \<subseteq>\<^sub>m enc1" and a': "\<And>E. enc1 \<subseteq>\<^sub>m E \<Longrightarrow> f (E, d) = (None, (E, d1))"
      unfolding replayable_def by blast+
    from rest s2 have b: "enc1 \<subseteq>\<^sub>m enc'" and b': "\<And>E. enc' \<subseteq>\<^sub>m E \<Longrightarrow> block fs (E, d1) = (None, (E, d'))"
      unfolding replayable_def by blast+
    have "block (f # fs) (E, d) = (None, (E, d'))" if "enc' \<subseteq>\<^sub>m E" for E
    proof -
      have "enc1 \<subseteq>\<^sub>m E" using b that by (rule map_le_trans)
      then show ?thesis using a' b' that by simp
    qed
    moreover have "enc \<subseteq>\<^sub>m enc'" using a b by (rule map_le_trans)
    ultimately show "enc \<subseteq>\<^sub>m enc' \<and> (\<forall>E. enc' \<subseteq>\<^sub>m E \<longrightarrow> block (f # fs) (E, d) = (None, (E, d')))"
      by blast
  qed
qed

lemma replayable_when_cols:
  assumes "list_all replayable body"
  shows "replayable (when_cols names body)"
proof -
  have blk: "replayable (block body)"
    by (rule replayable_block) (use assms in \<open>simp add: list_all_iff\<close>)
  show ?thesis
    unfolding replayable_def
  proof (intro allI impI)
    fix enc d enc' d'
    assume run: "when_cols names body (enc, d) = (None, (enc', d'))"
    show "enc \<subseteq>\<^sub>m enc' \<and> (\<forall>E. enc' \<subseteq>\<^sub>m E \<longrightarrow> when_cols names body (E, d) = (None, (E, d')))"
    proof (cases "\<forall>name \<in> set names. has_col d name")
      case True
      then have w: "\<And>E. when_cols names body (E, d) = block body (E, d)"
        by (simp add: when_cols_def)
      with run have "block body (enc, d) = (None, (enc', d'))" by simp
      with blk show ?thesis
        unfolding replayable_def w by blast
    next
      case False
      then have w: "\<And>E. when_cols names body (E, d) = (None, (E, d))"
        by (auto simp: when_cols_def)
      with run show ?thesis by simp
    qed
  qed
qed

lemma replayable_feature_stmts: "replayable (block (feature_stmts fs))"
proof (rule replayable_block)
  have "list_all replayable (feature_stmts fs)"
    by (simp add: feature_stmts_def categorical_cols_def replayable_encode_col
        replayable_when_cols replayable_set_col)
  then show "\<And>f. f \<in> set (feature_stmts fs) \<Longrightarrow> replayable f"
    by (simp add: list_all_iff)
qed

text \<open>
  C3. When \<open>create_features\<close> has run on a frame without raising (fitting the encoders
  of the categorical columns that had none), a second run on the same frame with the
  encoders it left returns a frame identical to the first one and leaves the encoders
  as they are.
\<close>

theorem transform_reproduces_fit:
  assumes "df < length h"
    and "create_features float_str enc df h = (Inr rf, enc1, h1)"
  shows "\<exists>rf2 h2. create_features float_str enc1 df h1 = (Inr rf2, enc1, h2) \<and>
           h2 ! rf2 = h1 ! rf"
proof -
  from assms(2) obtain d1 where
    run: "block (feature_stmts float_str) (enc, h ! df) = (None, (enc1, d1))"
    and rf: "rf = length h" and h1: "h1 = (h @ [h ! df])[length h := d1]"
    using assms(1)
    by (auto simp: create_features_def df_copy_def nth_append split: prod.splits option.splits)
  have same: "h1 ! df = h ! df" and out: "h1 ! rf = d1"
    using assms(1) by (simp_all add: h1 rf nth_append)
  from replayable_feature_stmts [of float_str] run
  have "block (feature_stmts float_str) (enc1, h ! df) = (None, (enc1, d1))"
    unfolding replayable_def by (meson map_le_refl)
  then have "create_features float_str enc1 df h1 =
      (Inr (length h1), enc1, (h1 @ [h1 ! df])[length h1 := d1])"
    by (simp add: create_features_def df_copy_def same)
  moreover have "((h1 @ [h1 ! df])[length h1 := d1]) ! length h1 = h1 ! rf"
    by (simp add: out)
  ultimately show ?thesis by blast
qed

theorem transform_reproduces_fit_witness:
  "(0::nat) < length [funnel] \<and>
   create_features (\<lambda>_. ''nan'') Map.empty 0 [funnel] =
     (Inr 1, [''Source'' \<mapsto> [''a'', ''b'']], [funnel, funnel_features]) \<and>
   (\<exists>rf2 h2. create_features (\<lambda>_. ''nan'') [''Source'' \<mapsto> [''a'', ''b'']] 0
                 [funnel, funnel_features] =
                 (Inr rf2, [''Source'' \<mapsto> [''a'', ''b'']], h2) \<and>
              h2 ! rf2 = funnel_features)"
proof -
  have "(0::nat) < length [funnel]" by simp
  from transform_reproduces_fit [OF this create_features_funnel [of "\<lambda>_. ''nan''"]]
  show ?thesis by (simp add: create_features_funnel)
qed

subsection \<open>Imputation of missing values\<close>

lemma df_columns_lookup:
  assumes "df_columns df names = Inr ps" and "name \<in> set names"
  shows "\<exists>c. df_get df name = Inr c \<and> map_of ps name = Some c"
  using assms
  by (induction names arbitrary: ps) (auto split: sum.splits)

lemma fillna_cols_lookup:
  assumes "fillna_cols ps = Inr qs" and "map_of ps name = Some c"
  shows "\<exists>c'. fillna_median c = Inr c' \<and> map_of qs name = Some c'"
  using assms
  by (induction ps arbitrary: qs) (auto split: sum.splits if_splits)

lemma median_fit_frame: "median [Fin 1, NaN, Fin 3] = Fin 2"
  by (simp add: median_def skipna_def fl_sort_def Let_def)

lemma median_new_frame: "median [Fin 10, NaN, Fin 30] = Fin 20"
  by (simp add: median_def skipna_def fl_sort_def Let_def)

text \<open>
  C4 (counterexample). The fitting data has the ages \<open>1, missing, 3\<close>, so the fit-time
  median is \<open>2\<close> and the missing age is imputed as \<open>2\<close>. New data with the ages
  \<open>10, missing, 30\<close> gets \<open>20\<close> for its missing age: the median of the data being
  transformed, not the fit-time median.
\<close>

theorem imputation_recomputed_per_call:
  "prepare_for_modeling fit_frame ''will_drop_off'' None =
     Inr (\<lparr> nrows = 3, cols = [(''Age'', FloatCol [Fin 1, Fin 2, Fin 3])] \<rparr>,
          None, [''Age'']) \<and>
   prepare_for_modeling new_frame ''will_drop_off'' None =
     Inr (\<lparr> nrows = 3, cols = [(''Age'', FloatCol [Fin 10, Fin 20, Fin 30])] \<rparr>,
          None, [''Age''])"
  by (simp add: prepare_for_modeling_def fit_frame_def new_frame_def exclude_cols_def
      numeric_dtype_def df_get_def has_col_def median_fit_frame median_new_frame)

text \<open>
  C4 (amended). In every call of \<open>prepare_for_modeling\<close> that returns, a missing
  value of a selected float column is replaced by the median of the non-missing values
  of that same column in the frame passed to this call (it stays missing when the
  column has no value at all), an integer column is taken as it is, and a selected
  object column holds missing values only and is taken as it is. The method has no
  access to medians of an earlier call: its result is a function of the frame it is
  given.
\<close>

theorem imputation_by_median_of_the_call:
  assumes "prepare_for_modeling df target_col feature_cols_arg = Inr (X, y, feature_cols)"
    and "name \<in> set feature_cols"
  shows "\<exists>c. df_get df name = Inr c \<and>
           (case c of
              FloatCol xs \<Rightarrow>
                df_get X name = Inr (FloatCol (map (\<lambda>x. if x = NaN then median xs else x) xs))
            | IntCol xs \<Rightarrow> df_get X name = Inr (IntCol xs)
            | ObjCol xs \<Rightarrow>
                list_all (\<lambda>x. x = None) xs \<and> df_get X name = Inr (ObjCol xs))"
proof -
  from assms(1) obtain selected filled where
    sel: "df_columns df feature_cols = Inr selected"
    and fil: "fillna_cols selected = Inr filled"
    and X: "cols X = filled"
    by (auto simp: prepare_for_modeling_def Let_def split: sum.splits)
  from df_columns_lookup [OF sel assms(2)] obtain c where
    c: "df_get df name = Inr c" "map_of selected name = Some c" by blast
  from fillna_cols_lookup [OF fil c(2)] obtain c' where
    c': "fillna_median c = Inr c'" "map_of filled name = Some c'" by blast
  from c' X have "df_get X name = Inr c'" by (simp add: df_get_def)
  with c c'(1) show ?thesis
    by (cases c) (auto split: if_splits)
qed

theorem imputation_by_median_of_the_call_witness:
  "prepare_for_modeling new_frame ''will_drop_off'' None =
     Inr (\<lparr> nrows = 3, cols = [(''Age'', FloatCol [Fin 10, Fin 20, Fin 30])] \<rparr>,
          None, [''Age'']) \<and>
   ''Age'' \<in> set [''Age''] \<and>
   df_get \<lparr> nrows = 3, cols = [(''Age'', FloatCol [Fin 10, Fin 20, Fin 30])] \<rparr> ''Age'' =
     Inr (FloatCol (map (\<lambda>x. if x = NaN then median [Fin 10, NaN, Fin 30] else x)
                        [Fin 10, NaN, Fin 30]))"
proof -
  have p: "prepare_for_modeling new_frame ''will_drop_off'' None =
     Inr (\<lparr> nrows = 3, cols = [(''Age'', FloatCol [Fin 10, Fin 20, Fin 30])] \<rparr>,
          None, [''Age''])"
    by (simp add: prepare_for_modeling_def new_frame_def exclude_cols_def
      numeric_dtype_def df_get_def has_col_def median_new_frame)
  have "''Age'' \<in> set [''Age'']" by simp
  from imputation_by_median_of_the_call [OF p this] p show ?thesis
    by (simp add: new_frame_def df_get_def)
qed

subsection \<open>Resampling\<close>

lemma oversample_eq:
  "oversample synth minority j X y =
     (X @ map synth [j..<j + (count_label (\<not> minority) y - count_label minority y)],
      y @ replicate (count_label (\<not> minority) y - count_label minority y) minority)"
proof (induction synth minority j X y rule: oversample.induct)
  case (1 synth minority j X y)
  let ?n = "count_label (\<not> minority) y - count_label minority y"
  show ?case
  proof (cases "count_label minority y < count_label (\<not> minority) y")
    case True
    then obtain n' where n: "?n = Suc n'"
      by (cases ?n) auto
    have cnt: "count_label (\<not> minority) (y @ [minority]) - count_label minority (y @ [minority]) = n'"
      using n by (auto simp: count_label_def)
    have "oversample synth minority j X y =
        oversample synth minority (Suc j) (X @ [synth j]) (y @ [minority])"
      using True by (simp add: oversample.simps [of synth minority j X y])
    also have "\<dots> = ((X @ [synth j]) @ map synth [Suc j..<Suc j + n'],
        (y @ [minority]) @ replicate n' minority)"
      using "1.IH" [OF True] by (simp only: cnt)
    also have "\<dots> = (X @ map synth [j..<j + ?n], y @ replicate ?n minority)"
    proof -
      have "[j..<j + Suc n'] = j # [Suc j..<Suc j + n']"
        by (subst upt_rec) simp
      then show ?thesis
        by (simp add: n replicate_app_Cons_same)
    qed
    finally show ?thesis .
  next
    case False
    then show ?thesis
      by (simp add: oversample.simps [of synth minority j X y])
  qed
qed

text \<open>
  C2. Whenever the resampler accepts \<open>(X, y)\<close>, the balanced labels hold as many \<open>True\<close>
  as \<open>False\<close> (and one label per feature vector, if the input had); and the output is
  determined by the stream of the seeded generator: two runs on the same \<open>(X, y)\<close> whose
  generators give the same stream for the seed return the same output.
\<close>

theorem resample_balanced_and_reproducible:
  "(\<forall>Xb yb. resample generator k seed X y = Inr (Xb, yb) \<longrightarrow>
      count_label True yb = count_label False yb \<and>
      (length X = length y \<longrightarrow> length Xb = length yb)) \<and>
   (\<forall>generator'. generator' seed = generator seed \<longrightarrow>
      resample generator' k seed X y = resample generator k seed X y)"
proof (intro conjI allI impI)
  fix Xb yb
  assume r: "resample generator k seed X y = Inr (Xb, yb)"
  let ?m = "count_label True y < count_label False y"
  let ?n = "count_label (\<not> ?m) y - count_label ?m y"
  from r have yb: "yb = y @ replicate ?n ?m" and Xb: "length Xb = length X + ?n"
    by (auto simp: resample_def Let_def oversample_eq split: if_splits)
  have "count_label ?m yb = count_label ?m y + ?n" "count_label (\<not> ?m) yb = count_label (\<not> ?m) y"
    unfolding yb by (auto simp: count_label_def)
  moreover have "count_label ?m y \<le> count_label (\<not> ?m) y"
    by (cases ?m) auto
  ultimately have "count_label ?m yb = count_label (\<not> ?m) yb" by simp
  then show "count_label True yb = count_label False yb"
    by (cases ?m) auto
  show "length Xb = length yb" if "length X = length y"
    using that Xb yb by simp
next
  fix generator'
  assume "generator' seed = generator seed"
  then show "resample generator' k seed X y = resample generator k seed X y"
    by (simp add: resample_def Let_def)
qed

theorem resample_balanced_and_reproducible_witness:
  "resample (\<lambda>seed j. (j, 1 / 2)) 5 42 [[0], [1], [2], [4], [6]]
       [False, False, False, True, True] =
     Inr ([[0], [1], [2], [4], [6], [5]], [False, False, False, True, True, True]) \<and>
   count_label True [False, False, False, True, True, True] =
     count_label False [False, False, False, True, True, True]"
proof -
  have r: "resample (\<lambda>seed j. (j, 1 / 2)) 5 42 [[0], [1], [2], [4], [6]]
       [False, False, False, True, True] =
     Inr ([[0], [1], [2], [4], [6], [5]], [False, False, False, True, True, True])"
    by (simp add: resample_def count_label_def Let_def oversample_eq synthetic_def
        neighbours_def interpolate_def sq_dist_def)
  from resample_balanced_and_reproducible
    [of "\<lambda>seed j. (j, 1 / 2)" 5 42 "[[0], [1], [2], [4], [6]]"
        "[False, False, False, True, True]"] r
  show ?thesis by blast
qed

subsection \<open>Power analysis\<close>

lemma erf_terms_summable:
  "summable (\<lambda>n. (- 1) ^ n * z ^ (2 * n + 1) / (fact n * real (2 * n + 1)))"
proof (rule summable_comparison_test' [where N = 0])
  show "summable (\<lambda>n. \<bar>z\<bar> * (inverse (fact n) * (z\<^sup>2) ^ n))"
    by (rule summable_mult) (rule summable_exp)
  fix n :: nat
  have e: "(z\<^sup>2) ^ n = \<bar>z\<bar> ^ (2 * n)"
    by (metis power2_abs power_mult)
  have "norm ((- 1) ^ n * z ^ (2 * n + 1) / (fact n * real (2 * n + 1)))
      = \<bar>z\<bar> ^ (2 * n + 1) / (fact n * real (2 * n + 1))"
    by (simp add: abs_mult power_abs)
  also have "\<dots> \<le> \<bar>z\<bar> ^ (2 * n + 1) / (fact n * 1)"
    by (intro divide_left_mono mult_left_mono) auto
  also have "\<dots> = \<bar>z\<bar> * (inverse (fact n) * (z\<^sup>2) ^ n)"
    by (simp add: e field_simps)
  finally show "norm ((- 1) ^ n * z ^ (2 * n + 1) / (fact n * real (2 * n + 1)))
      \<le> \<bar>z\<bar> * (inverse (fact n) * (z\<^sup>2) ^ n)" .
qed

lemma erf_pow_sums:
  "(\<lambda>n. erf_pow n * z ^ n) sums
     (\<Sum>n. (- 1) ^ n * z ^ (2 * n + 1) / (fact n * real (2 * n + 1)))"
proof -
  let ?g = "\<lambda>n. (- 1) ^ n * z ^ (2 * n + 1) / (fact n * real (2 * n + 1))"
  have "(\<lambda>n. if even n then 0 else ?g ((n - 1) div 2)) sums suminf ?g"
    by (rule sums_if') (rule summable_sums [OF erf_terms_summable])
  moreover have "(if even n then 0 else ?g ((n - 1) div 2)) = erf_pow n * z ^ n" for n
  proof (cases "even n")
    case True
    then show ?thesis by (simp add: erf_pow_def)
  next
    case False
    then obtain k where k: "n = 2 * k + 1" by (auto elim: oddE)
    then show ?thesis by (simp add: erf_pow_def)
  qed
  ultimately show ?thesis by simp
qed

lemma erf_power_series: "erf z = 2 / sqrt pi * (\<Sum>n. erf_pow n * z ^ n)"
  using sums_unique [OF erf_pow_sums [of z]] by (simp add: erf_def)

lemma diffs_erf_pow_sums: "(\<lambda>n. diffs erf_pow n * z ^ n) sums exp (- (z\<^sup>2))"
proof -
  let ?f = "\<lambda>k. (- (z\<^sup>2)) ^ k /\<^sub>R fact k"
  have "(\<lambda>n. if even n then ?f (n div 2) else (\<lambda>_. 0) ((n - 1) div 2)) sums (0 + exp (- (z\<^sup>2)))"
    by (rule sums_if [OF sums_zero exp_converges])
  moreover have "(if even n then ?f (n div 2) else 0) = diffs erf_pow n * z ^ n" for n
  proof (cases "even n")
    case True
    then obtain k where k: "n = 2 * k" by (auto elim: evenE)
    have p: "(- (z\<^sup>2)) ^ k = (- 1) ^ k * z ^ (2 * k)"
      by (simp add: power_mult power_minus [of "z\<^sup>2"])
    have d: "diffs erf_pow (2 * k) = (- 1) ^ k / fact k"
      by (simp add: diffs_def erf_pow_def)
    have "?f k = ((- 1) ^ k / fact k) * z ^ (2 * k)"
      unfolding p by (simp add: divide_inverse ac_simps)
    also have "\<dots> = diffs erf_pow n * z ^ n"
      unfolding k d ..
    finally show ?thesis
      using True k by simp
  next
    case False
    then show ?thesis by (simp add: diffs_def erf_pow_def)
  qed
  ultimately show ?thesis by simp
qed

lemma DERIV_erf: "DERIV erf x :> 2 / sqrt pi * exp (- (x\<^sup>2))"
proof -
  have "((\<lambda>x. \<Sum>n. erf_pow n * x ^ n) has_field_derivative (\<Sum>n. diffs erf_pow n * x ^ n)) (at x)"
    by (rule termdiffs_strong_converges_everywhere) (rule sums_summable [OF erf_pow_sums])
  then have "((\<lambda>x. \<Sum>n. erf_pow n * x ^ n) has_field_derivative exp (- (x\<^sup>2))) (at x)"
    using sums_unique [OF diffs_erf_pow_sums [of x]] by simp
  then have "((\<lambda>x. 2 / sqrt pi * (\<Sum>n. erf_pow n * x ^ n)) has_field_derivative
      2 / sqrt pi * exp (- (x\<^sup>2))) (at x)"
    by (rule DERIV_cmult)
  moreover have "erf = (\<lambda>x. 2 / sqrt pi * (\<Sum>n. erf_pow n * x ^ n))"
    by (rule ext) (rule erf_power_series)
  ultimately show ?thesis by simp
qed

lemma erf_mono:
  assumes "x \<le> y"
  shows "erf x \<le> erf y"
  using assms
proof (rule DERIV_nonneg_imp_nondecreasing)
  fix t :: real
  show "\<exists>d. DERIV erf t :> d \<and> 0 \<le> d"
    using DERIV_erf [of t] by (intro exI conjI) (assumption, simp)
qed

lemma erf_0: "erf 0 = 0"
  by (simp add: erf_def)

lemma erf_minus: "erf (- z) = - erf z"
proof -
  have "(\<Sum>n. (- 1) ^ n * (- z) ^ (2 * n + 1) / (fact n * real (2 * n + 1))) =
        (\<Sum>n. - ((- 1) ^ n * z ^ (2 * n + 1) / (fact n * real (2 * n + 1))))"
    by (rule arg_cong [where f = suminf]) (simp add: fun_eq_iff)
  also have "\<dots> = - (\<Sum>n. (- 1) ^ n * z ^ (2 * n + 1) / (fact n * real (2 * n + 1)))"
    by (rule suminf_minus [OF erf_terms_summable])
  finally show ?thesis by (simp add: erf_def)
qed

lemma erf_tail:
  assumes "0 < a" and "a \<le> x"
  shows "erf x \<le> erf a + 2 / sqrt pi * exp (- (a\<^sup>2)) / a"
proof -
  let ?c = "2 / sqrt pi"
  let ?h = "\<lambda>t. erf t + ?c / a * exp (- (a * t))"
  have "?h x \<le> ?h a"
    using assms(2)
  proof (rule DERIV_nonpos_imp_nonincreasing)
    fix t :: real
    assume t: "a \<le> t"
    have "DERIV (\<lambda>t. ?c / a * exp (- (a * t))) t :> ?c / a * (exp (- (a * t)) * (- a))"
      by (auto intro!: derivative_eq_intros)
    then have "DERIV ?h t :> ?c * exp (- (t\<^sup>2)) + ?c / a * (exp (- (a * t)) * (- a))"
      by (rule DERIV_add [OF DERIV_erf])
    moreover have "?c * exp (- (t\<^sup>2)) + ?c / a * (exp (- (a * t)) * (- a)) \<le> 0"
    proof -
      have "a * t \<le> t\<^sup>2"
        using t assms(1) by (simp add: power2_eq_square mult_right_mono)
      then have "exp (- (t\<^sup>2)) \<le> exp (- (a * t))" by simp
      then have "?c * exp (- (t\<^sup>2)) \<le> ?c * exp (- (a * t))"
        by (intro mult_left_mono) auto
      moreover have "?c / a * (exp (- (a * t)) * (- a)) = - (?c * exp (- (a * t)))"
        using assms(1) by simp
      ultimately show ?thesis by linarith
    qed
    ultimately show "\<exists>y. DERIV ?h t :> y \<and> y \<le> 0" by blast
  qed
  moreover have "0 \<le> ?c / a * exp (- (a * x))"
    using assms(1) by simp
  moreover have "?c / a * exp (- (a * a)) = ?c * exp (- (a\<^sup>2)) / a"
    by (simp add: power2_eq_square)
  ultimately show ?thesis by linarith
qed

lemma erf_series_upper:
  assumes "0 \<le> u" "u \<le> 4"
  shows "(\<Sum>n. (- 1) ^ n * erf_coeff u n)
         \<le> erf_coeff u 0 - erf_coeff u 1 + erf_coeff u 2 - erf_coeff u 3 + erf_coeff u 4
         - erf_coeff u 5 + erf_coeff u 6 - erf_coeff u 7 + erf_coeff u 8 - erf_coeff u 9
         + erf_coeff u 10"
proof -
  let ?b = "\<lambda>n. erf_coeff u (n + 2)"
  let ?f = "\<lambda>n. (- 1) ^ n * erf_coeff u n"
  have lim: "?b \<longlonglongrightarrow> 0"
    using erf_coeff_tendsto_0 [OF assms(1)] by (rule LIMSEQ_ignore_initial_segment)
  have pos: "\<And>n. 0 \<le> ?b n"
    using assms by (simp add: erf_coeff_nonneg)
  have mono: "\<And>n. ?b (Suc n) \<le> ?b n"
    using erf_coeff_decreasing [OF assms] by simp
  have shift: "\<And>n. ?f (n + 2) = (- 1) ^ n * ?b n"
    by simp
  have summ: "summable ?f"
    by (rule erf_series_lower(1) [OF assms])
  have s9: "{..<2 * 4 + 1 :: nat} = {0, 1, 2, 3, 4, 5, 6, 7, 8}" by auto
  have s2: "{..<2 :: nat} = {0, 1}" by auto
  have "(\<Sum>i. (- 1) ^ i * ?b i) \<le> (\<Sum>i<2 * 4 + 1. (- 1) ^ i * ?b i)"
    using summable_Leibniz'(4) [OF lim pos mono] .
  then have tail: "(\<Sum>i. ?f (i + 2)) \<le> ?b 0 - ?b 1 + ?b 2 - ?b 3 + ?b 4 - ?b 5 + ?b 6 - ?b 7 + ?b 8"
    unfolding s9 shift by simp
  have "suminf ?f = (\<Sum>n. ?f (n + 2)) + (\<Sum>i<2. ?f i)"
    by (rule suminf_split_initial_segment [OF summ])
  then have "suminf ?f = (\<Sum>n. ?f (n + 2)) + (erf_coeff u 0 - erf_coeff u 1)"
    unfolding s2 by simp
  with tail show ?thesis
    by (simp add: eval_nat_numeral)
qed

lemma pi_less_63_20: "pi < 63 / 20"
proof (rule ccontr)
  assume "\<not> pi < 63 / 20"
  then have h: "(63 / 40 :: real) \<le> pi / 2" by simp
  have "0 \<le> cos (63 / 40 :: real)"
    by (rule cos_ge_zero) (use h in auto)
  moreover
  obtain t :: real where t: "cos (63 / 40) = (\<Sum>m<8. cos_coeff m * (63 / 40) ^ m)
      + (cos (t + 1 / 2 * real 8 * pi) / fact 8) * (63 / 40) ^ 8"
    using Maclaurin_cos_expansion2 [of "63 / 40" 8] by auto
  have "cos (t + 1 / 2 * real 8 * pi) \<le> 1" by simp
  then have "(cos (t + 1 / 2 * real 8 * pi) / fact 8) * (63 / 40) ^ 8 \<le> (1 / fact 8) * (63 / 40 :: real) ^ 8"
    by (intro mult_right_mono divide_right_mono) auto
  moreover have "(\<Sum>m<8. cos_coeff m * (63 / 40 :: real) ^ m) + (1 / fact 8) * (63 / 40) ^ 8 < 0"
  proof -
    have "{..<8::nat} = {0, 1, 2, 3, 4, 5, 6, 7}" by auto
    then show ?thesis by (simp add: cos_coeff_def fact_numeral power_divide)
  qed
  ultimately show False using t by linarith
qed

lemma pi_greater_78_25: "78 / 25 < pi"
proof (rule ccontr)
  assume "\<not> 78 / 25 < pi"
  then have h: "pi / 2 \<le> (39 / 25 :: real)" by simp
  have "cos (39 / 25 :: real) \<le> cos (pi / 2)"
    by (rule cos_monotone_0_pi_le) (use h pi_ge_two in auto)
  then have "cos (39 / 25 :: real) \<le> 0" by simp
  moreover
  obtain t :: real where t: "cos (39 / 25) = (\<Sum>m<8. cos_coeff m * (39 / 25) ^ m)
      + (cos (t + 1 / 2 * real 8 * pi) / fact 8) * (39 / 25) ^ 8"
    using Maclaurin_cos_expansion2 [of "39 / 25" 8] by auto
  have "- 1 \<le> cos (t + 1 / 2 * real 8 * pi)" by simp
  then have "(- 1 / fact 8) * (39 / 25 :: real) ^ 8 \<le> (cos (t + 1 / 2 * real 8 * pi) / fact 8) * (39 / 25) ^ 8"
    by (intro mult_right_mono divide_right_mono) auto
  moreover have "0 < (\<Sum>m<8. cos_coeff m * (39 / 25 :: real) ^ m) + (- 1 / fact 8) * (39 / 25) ^ 8"
  proof -
    have "{..<8::nat} = {0, 1, 2, 3, 4, 5, 6, 7}" by auto
    then show ?thesis by (simp add: cos_coeff_def fact_numeral power_divide)
  qed
  ultimately show False using t by linarith
qed

lemma erf_sqrt_ge:
  assumes u: "0 \<le> u" "u \<le> 4"
    and s: "0 \<le> s" "s \<le> erf_sum10 u"
    and c: "0 \<le> c" "c\<^sup>2 * (63 / 20) \<le> 4 * u * s\<^sup>2"
  shows "c \<le> erf (sqrt u)"
proof -
  let ?S = "\<Sum>n. (- 1) ^ n * erf_coeff u n"
  have S: "s \<le> ?S"
    using s(2) erf_series_lower(2) [OF u] by (simp add: erf_sum10_def)
  have "c\<^sup>2 * pi \<le> c\<^sup>2 * (63 / 20)"
    using pi_less_63_20 by (intro mult_left_mono) auto
  then have "(c * sqrt pi)\<^sup>2 \<le> (2 * (sqrt u * s))\<^sup>2"
    using c(2) u(1) by (simp add: power_mult_distrib)
  then have "c * sqrt pi \<le> 2 * (sqrt u * s)"
    by (rule power2_le_imp_le) (use s(1) u(1) in simp)
  also have "\<dots> \<le> 2 * (sqrt u * ?S)"
    using S u(1) by (intro mult_left_mono) auto
  finally have "c \<le> 2 * (sqrt u * ?S) / sqrt pi"
    by (simp add: pos_le_divide_eq)
  then show ?thesis
    unfolding erf_sqrt [OF u] by (simp add: field_simps)
qed

lemma erf_sqrt_le:
  assumes u: "0 \<le> u" "u \<le> 4"
    and s: "erf_sum11 u \<le> s"
    and c: "0 \<le> c" "4 * u * s\<^sup>2 \<le> c\<^sup>2 * (78 / 25)"
  shows "erf (sqrt u) \<le> c"
proof -
  let ?S = "\<Sum>n. (- 1) ^ n * erf_coeff u n"
  have S: "?S \<le> s"
    using s erf_series_upper [OF u] by (simp add: erf_sum11_def erf_sum10_def)
  have "c\<^sup>2 * (78 / 25) \<le> c\<^sup>2 * pi"
    using pi_greater_78_25 by (intro mult_left_mono) auto
  then have "(2 * (sqrt u * s))\<^sup>2 \<le> (c * sqrt pi)\<^sup>2"
    using c(2) u(1) by (simp add: power_mult_distrib)
  then have "2 * (sqrt u * s) \<le> c * sqrt pi"
    by (rule power2_le_imp_le) (use c(1) in simp)
  moreover have "2 * (sqrt u * ?S) \<le> 2 * (sqrt u * s)"
    using S u(1) by (intro mult_left_mono) auto
  ultimately have "2 * (sqrt u * ?S) / sqrt pi \<le> c"
    by (simp add: pos_divide_le_eq)
  then show ?thesis
    unfolding erf_sqrt [OF u] by (simp add: field_simps)
qed

lemma erf_sum10_values:
  "598 / 1000 \<le> erf_sum10 2"
  "6217 / 10000 \<le> erf_sum10 (361 / 200)"
  "8556 / 10000 \<le> erf_sum10 (1 / 2)"
  by (simp_all add: erf_sum10_def erf_coeff_def fact_numeral power_divide)

lemma erf_sum11_values:
  "erf_sum11 (361 / 200) \<le> 6218 / 10000"
  "erf_sum11 (169 / 200) \<le> 77744 / 100000"
  "erf_sum11 4 \<le> 44453 / 100000"
  by (simp_all add: erf_sum11_def erf_sum10_def erf_coeff_def fact_numeral power_divide)

lemma erf_values:
  "19 / 20 \<le> erf (sqrt 2)"
  "47 / 50 \<le> erf (sqrt (361 / 200))"
  "erf (sqrt (361 / 200)) \<le> 947 / 1000"
  "17 / 25 \<le> erf (sqrt (1 / 2))"
  "erf (sqrt (169 / 200)) \<le> 81 / 100"
  "erf (sqrt 4) \<le> 101 / 100"
proof -
  show "19 / 20 \<le> erf (sqrt 2)"
    by (rule erf_sqrt_ge [OF _ _ _ erf_sum10_values(1)]) (simp_all add: power_divide)
  show "47 / 50 \<le> erf (sqrt (361 / 200))"
    by (rule erf_sqrt_ge [OF _ _ _ erf_sum10_values(2)]) (simp_all add: power_divide)
  show "erf (sqrt (361 / 200)) \<le> 947 / 1000"
    by (rule erf_sqrt_le [OF _ _ erf_sum11_values(1)]) (simp_all add: power_divide)
  show "17 / 25 \<le> erf (sqrt (1 / 2))"
    by (rule erf_sqrt_ge [OF _ _ _ erf_sum10_values(3)]) (simp_all add: power_divide)
  show "erf (sqrt (169 / 200)) \<le> 81 / 100"
    by (rule erf_sqrt_le [OF _ _ erf_sum11_values(2)]) (simp_all add: power_divide)
  show "erf (sqrt 4) \<le> 101 / 100"
    by (rule erf_sqrt_le [OF _ _ erf_sum11_values(3)]) (simp_all add: power_divide)
qed

lemma Phi_mono: "x \<le> y \<Longrightarrow> Phi x \<le> Phi y"
  unfolding Phi_def by (intro divide_right_mono add_left_mono erf_mono) auto

lemma Phi_minus: "Phi (- x) = 1 - Phi x"
  by (simp add: Phi_def erf_minus field_simps)

lemma Phi_0: "Phi 0 = 1 / 2"
  by (simp add: Phi_def erf_0)

lemma div_sqrt2: "0 \<le> x \<Longrightarrow> x / sqrt 2 = sqrt (x\<^sup>2 / 2)"
  by (simp add: real_sqrt_divide)

lemma Phi_values:
  "39 / 40 \<le> Phi 2"
  "97 / 100 \<le> Phi (19 / 10)"
  "Phi (19 / 10) < 39 / 40"
  "21 / 25 \<le> Phi 1"
  "Phi (13 / 10) \<le> 181 / 200"
proof -
  have e: "(2::real) / sqrt 2 = sqrt 2" "(19 / 10) / sqrt 2 = sqrt (361 / 200)"
    "1 / sqrt 2 = sqrt (1 / 2)" "(13 / 10) / sqrt 2 = sqrt (169 / 200)"
    using div_sqrt2 [of 2] div_sqrt2 [of "19 / 10"] div_sqrt2 [of 1] div_sqrt2 [of "13 / 10"]
    by (simp_all add: power_divide)
  show "39 / 40 \<le> Phi 2" "97 / 100 \<le> Phi (19 / 10)" "Phi (19 / 10) < 39 / 40"
    "21 / 25 \<le> Phi 1" "Phi (13 / 10) \<le> 181 / 200"
    unfolding Phi_def e using erf_values by simp_all
qed

lemma erf_le_far:
  assumes "2 \<le> x"
  shows "erf x \<le> 26 / 25"
proof -
  have "erf x \<le> erf 2 + 2 / sqrt pi * exp (- (2\<^sup>2)) / 2"
    by (rule erf_tail) (use assms in auto)
  moreover have "erf 2 \<le> 101 / 100"
    using erf_values(6) by simp
  moreover have "2 / sqrt pi * exp (- (2\<^sup>2)) / 2 \<le> 3 / 100"
  proof -
    have "(1 + 2 + 2\<^sup>2 / 2 :: real) \<le> exp 2"
      by (rule exp_lower_Taylor_quadratic) simp
    then have "5 \<le> exp (2::real)" by simp
    then have "5 * 5 \<le> exp (2::real) * exp 2"
      by (intro mult_mono) auto
    then have e4: "25 \<le> exp (4::real)"
      by (simp flip: exp_add)
    have "exp (- 4 :: real) = 1 / exp 4"
      by (simp add: exp_minus field_simps)
    also have "\<dots> \<le> 1 / 25"
      using e4 by (intro divide_left_mono) auto
    finally have a: "exp (- 4 :: real) \<le> 1 / 25" .
    have "(3 / 2)\<^sup>2 \<le> pi"
      using pi_greater_78_25 by (simp add: power_divide)
    then have "3 / 2 \<le> sqrt pi"
      by (rule real_le_rsqrt)
    then have b: "1 / sqrt pi \<le> 2 / 3"
      by (simp add: field_simps)
    have "2 / sqrt pi * exp (- (2\<^sup>2)) / 2 = (1 / sqrt pi) * exp (- 4)"
      by simp
    also have "\<dots> \<le> (2 / 3) * (1 / 25)"
      using a b by (intro mult_mono) auto
    finally show ?thesis by simp
  qed
  ultimately show ?thesis by linarith
qed

lemma Phi_far_negative:
  assumes "x \<le> - 3"
  shows "- 1 / 50 \<le> Phi x"
proof -
  have "2 * sqrt 2 \<le> 3"
  proof -
    have "sqrt 2 \<le> 3 / 2"
      by (rule real_le_lsqrt) (simp_all add: power_divide)
    then show ?thesis by simp
  qed
  then have "2 \<le> 3 / sqrt 2"
    by (simp add: field_simps)
  also have "\<dots> \<le> (- x) / sqrt 2"
    using assms by (intro divide_right_mono) auto
  finally have "erf ((- x) / sqrt 2) \<le> 26 / 25"
    by (rule erf_le_far)
  then have "Phi (- x) \<le> 51 / 50"
    by (simp add: Phi_def)
  then show ?thesis
    using Phi_minus [of x] by simp
qed

lemma norm_quantile_bounds:
  "19 / 10 \<le> norm_quantile (39 / 40)" "norm_quantile (39 / 40) \<le> 2"
proof -
  let ?A = "{z. 39 / 40 \<le> Phi z}"
  have low: "19 / 10 \<le> x" if "x \<in> ?A" for x
  proof (rule ccontr)
    assume "\<not> 19 / 10 \<le> x"
    then have "Phi x \<le> Phi (19 / 10)" by (intro Phi_mono) simp
    with Phi_values(3) that show False by simp
  qed
  have mem: "2 \<in> ?A" using Phi_values(1) by simp
  then have "?A \<noteq> {}" by blast
  then show "19 / 10 \<le> norm_quantile (39 / 40)"
    unfolding norm_quantile_def using low by (rule cInf_greatest)
  have "bdd_below ?A"
    using low by (rule bdd_belowI)
  with mem show "norm_quantile (39 / 40) \<le> 2"
    unfolding norm_quantile_def by (rule cInf_lower)
qed

lemma cohen_h_bounds: "0 < cohen_h" "cohen_h\<^sup>2 \<le> 2"
proof -
  have r: "sqrt (1 / 5) < sqrt (23 / 100 :: real)" by simp
  have h: "sqrt (23 / 100 :: real) \<le> 1 / 2"
    by (rule real_le_lsqrt) (simp_all add: power_divide)
  have "arcsin (sqrt (1 / 5)) < arcsin (sqrt (23 / 100))"
    using r h by (intro arcsin_less_mono [THEN iffD2]) auto
  then show "0 < cohen_h" by (simp add: cohen_h_def)
  have "arcsin (sqrt (23 / 100)) \<le> arcsin (1 / 2)"
    using h by (intro arcsin_le_mono [THEN iffD2]) auto
  also have "arcsin (1 / 2 :: real) = pi / 6"
    using arcsin_sin [of "pi / 6"] by (simp add: sin_30)
  finally have a: "arcsin (sqrt (23 / 100)) \<le> pi / 6" .
  have "arcsin 0 \<le> arcsin (sqrt (1 / 5))"
    by (intro arcsin_le_mono [THEN iffD2]) (auto intro: real_le_lsqrt)
  then have b: "0 \<le> arcsin (sqrt (1 / 5))" by simp
  have "cohen_h \<le> pi / 3"
    using a b by (simp add: cohen_h_def)
  also have "\<dots> \<le> 21 / 20"
    using pi_less_63_20 by simp
  finally have "cohen_h \<le> 21 / 20" .
  then have "cohen_h\<^sup>2 \<le> (21 / 20)\<^sup>2"
    using \<open>0 < cohen_h\<close> by (intro power_mono) auto
  then show "cohen_h\<^sup>2 \<le> 2"
    by (simp add: power_divide)
qed

lemma shift_at: 
  assumes "0 < d" "0 \<le> s"
  shows "d * sqrt (2 * s\<^sup>2 / d\<^sup>2 / 2) = s"
  using assms by (simp add: real_sqrt_divide)

lemma shift_below:
  assumes "0 < d" "0 \<le> s" "0 \<le> n" "n < 2 * s\<^sup>2 / d\<^sup>2"
  shows "d * sqrt (n / 2) < s"
proof -
  have "n / 2 < (s / d)\<^sup>2"
    using assms(4) by (simp add: power_divide mult.commute)
  then have "sqrt (n / 2) < sqrt ((s / d)\<^sup>2)"
    by (rule real_sqrt_less_mono)
  moreover have "sqrt ((s / d)\<^sup>2) = s / d"
    using assms(1,2) by simp
  ultimately have "sqrt (n / 2) < s / d"
    by simp
  then show ?thesis
    using assms(1) by (simp add: field_simps)
qed

lemma power_ge:
  assumes "3 \<le> s"
  shows "Phi (s - 2) - 1 / 50 \<le> Phi (s - norm_quantile (39 / 40)) + Phi (- s - norm_quantile (39 / 40))"
proof -
  have "Phi (s - 2) \<le> Phi (s - norm_quantile (39 / 40))"
    using norm_quantile_bounds(2) by (intro Phi_mono) simp
  moreover have "- 1 / 50 \<le> Phi (- s - norm_quantile (39 / 40))"
    using norm_quantile_bounds(1) assms by (intro Phi_far_negative) simp
  ultimately show ?thesis by simp
qed

lemma power_le:
  assumes "0 \<le> s" "s \<le> s0"
  shows "Phi (s - norm_quantile (39 / 40)) + Phi (- s - norm_quantile (39 / 40))
         \<le> Phi (s0 - 19 / 10) + 3 / 100"
proof -
  have "Phi (s - norm_quantile (39 / 40)) \<le> Phi (s0 - 19 / 10)"
    using norm_quantile_bounds(1) assms by (intro Phi_mono) simp
  moreover have "Phi (- s - norm_quantile (39 / 40)) \<le> Phi (- (19 / 10))"
    using norm_quantile_bounds(1) assms by (intro Phi_mono) simp
  moreover have "Phi (- (19 / 10)) \<le> 3 / 100"
    using Phi_values(2) by (simp add: Phi_minus)
  ultimately show ?thesis by simp
qed

lemma z_test_power_unfold:
  "z_test_power d (1 / 20) n =
     Phi (d * sqrt (n / 2) - norm_quantile (39 / 40)) +
     Phi (- (d * sqrt (n / 2)) - norm_quantile (39 / 40))"
proof -
  have "(1 - 1 / 20 / 2 :: real) = 39 / 40" by simp
  then show ?thesis by (simp add: z_test_power_def Let_def)
qed

lemma power_at:
  assumes "0 < d" "3 \<le> s"
  shows "Phi (s - 2) - 1 / 50 \<le> z_test_power d (1 / 20) (2 * s\<^sup>2 / d\<^sup>2)"
proof -
  have "d * sqrt (2 * s\<^sup>2 / d\<^sup>2 / 2) = s"
    using assms by (intro shift_at) auto
  then show ?thesis
    unfolding z_test_power_unfold using power_ge [OF assms(2)] by simp
qed

lemma power_below:
  assumes "0 < d" "0 \<le> s0" "0 \<le> n" "n < 2 * s0\<^sup>2 / d\<^sup>2"
  shows "z_test_power d (1 / 20) n \<le> Phi (s0 - 19 / 10) + 3 / 100"
proof -
  have "d * sqrt (n / 2) < s0"
    using assms by (rule shift_below)
  moreover have "0 \<le> d * sqrt (n / 2)"
    using assms(1,3) by simp
  ultimately show ?thesis
    unfolding z_test_power_unfold using power_le [of "d * sqrt (n / 2)" s0] by simp
qed

lemma solve_power_80:
  assumes "0 < d"
  shows "2 * (19 / 10)\<^sup>2 / d\<^sup>2 \<le> zt_ind_solve_power d (1 / 20) (4 / 5)"
    and "zt_ind_solve_power d (1 / 20) (4 / 5) \<le> 2 * 3\<^sup>2 / d\<^sup>2"
proof -
  let ?A = "{n. 0 \<le> n \<and> 4 / 5 \<le> z_test_power d (1 / 20) n}"
  have low: "2 * (19 / 10)\<^sup>2 / d\<^sup>2 \<le> n" if "n \<in> ?A" for n
  proof (rule ccontr)
    assume "\<not> 2 * (19 / 10)\<^sup>2 / d\<^sup>2 \<le> n"
    then have "z_test_power d (1 / 20) n \<le> Phi (19 / 10 - 19 / 10) + 3 / 100"
      using that assms by (intro power_below) auto
    then have "z_test_power d (1 / 20) n \<le> 53 / 100"
      by (simp add: Phi_0)
    with that show False by simp
  qed
  have "Phi (3 - 2) - 1 / 50 \<le> z_test_power d (1 / 20) (2 * 3\<^sup>2 / d\<^sup>2)"
    using assms by (intro power_at) auto
  then have "4 / 5 \<le> z_test_power d (1 / 20) (2 * 3\<^sup>2 / d\<^sup>2)"
    using Phi_values(4) by simp
  then have mem: "2 * 3\<^sup>2 / d\<^sup>2 \<in> ?A"
    using assms by simp
  then have "?A \<noteq> {}" by blast
  then show "2 * (19 / 10)\<^sup>2 / d\<^sup>2 \<le> zt_ind_solve_power d (1 / 20) (4 / 5)"
    unfolding zt_ind_solve_power_def using low by (rule cInf_greatest)
  have "bdd_below ?A"
    using low by (rule bdd_belowI)
  with mem show "zt_ind_solve_power d (1 / 20) (4 / 5) \<le> 2 * 3\<^sup>2 / d\<^sup>2"
    unfolding zt_ind_solve_power_def by (rule cInf_lower)
qed

lemma solve_power_95:
  assumes "0 < d"
  shows "2 * (16 / 5)\<^sup>2 / d\<^sup>2 \<le> zt_ind_solve_power d (1 / 20) (19 / 20)"
proof -
  let ?A = "{n. 0 \<le> n \<and> 19 / 20 \<le> z_test_power d (1 / 20) n}"
  have low: "2 * (16 / 5)\<^sup>2 / d\<^sup>2 \<le> n" if "n \<in> ?A" for n
  proof (rule ccontr)
    assume "\<not> 2 * (16 / 5)\<^sup>2 / d\<^sup>2 \<le> n"
    then have "z_test_power d (1 / 20) n \<le> Phi (16 / 5 - 19 / 10) + 3 / 100"
      using that assms by (intro power_below) auto
    moreover have "(16 / 5 - 19 / 10 :: real) = 13 / 10" by simp
    ultimately have "z_test_power d (1 / 20) n \<le> 187 / 200"
      using Phi_values(5) by simp
    with that show False by simp
  qed
  have "Phi (4 - 2) - 1 / 50 \<le> z_test_power d (1 / 20) (2 * 4\<^sup>2 / d\<^sup>2)"
    using assms by (intro power_at) auto
  then have "19 / 20 \<le> z_test_power d (1 / 20) (2 * 4\<^sup>2 / d\<^sup>2)"
    using Phi_values(1) by simp
  then have "2 * 4\<^sup>2 / d\<^sup>2 \<in> ?A"
    using assms by simp
  then have "?A \<noteq> {}" by blast
  then show ?thesis
    unfolding zt_ind_solve_power_def using low by (rule cInf_greatest)
qed

lemma power_analysis_effect:
  "power_analysis (20 / 100) (15 / 100) (5 / 100) p =
     Inr \<lceil>zt_ind_solve_power cohen_h (1 / 20) p\<rceil>"
proof -
  have a: "sqrt (23 / 100 :: real) \<le> 1" "sqrt (1 / 5 :: real) \<le> 1"
    by (simp_all add: real_sqrt_le_1_iff)
  have b: "\<not> sqrt (23 / 100 :: real) < - 1" "\<not> sqrt (1 / 5 :: real) < - 1"
    using real_sqrt_ge_zero [of "23 / 100"] real_sqrt_ge_zero [of "1 / 5"] by linarith+
  have "(20 / 100 * (1 + 15 / 100) :: real) = 23 / 100" by simp
  then show ?thesis
    using a b by (simp add: power_analysis_def Let_def fl_sub_def cohen_h_def)
qed

text \<open>
  C6. \<open>power_analysis(baseline_rate=0.20, expected_improvement=0.15, power=0.80)\<close>, at
  the default \<open>alpha = 0.05\<close>, returns a strictly positive integer, and the same call with
  \<open>power=0.95\<close> returns a strictly larger one. (With the effect size \<open>h\<close>, the required
  sample size lies between \<open>7.22 / h\<^sup>2\<close> and \<open>18 / h\<^sup>2\<close> for a power of \<open>0.80\<close> and is at
  least \<open>20.48 / h\<^sup>2\<close> for a power of \<open>0.95\<close>, and \<open>h\<^sup>2 \<le> 2\<close>.)
\<close>

theorem power_analysis_sample_sizes:
  "\<exists>n80 n95. power_analysis (20 / 100) (15 / 100) (5 / 100) (80 / 100) = Inr n80 \<and>
              power_analysis (20 / 100) (15 / 100) (5 / 100) (95 / 100) = Inr n95 \<and>
              0 < n80 \<and> n80 < n95"
proof -
  let ?n80 = "zt_ind_solve_power cohen_h (1 / 20) (4 / 5)"
  let ?n95 = "zt_ind_solve_power cohen_h (1 / 20) (19 / 20)"
  note d = cohen_h_bounds
  have k: "0 < 1 / cohen_h\<^sup>2" "1 / 2 \<le> 1 / cohen_h\<^sup>2"
    using d by (simp_all add: field_simps)
  have l80: "2 * (19 / 10)\<^sup>2 * (1 / cohen_h\<^sup>2) \<le> ?n80"
    and u80: "?n80 \<le> 2 * 3\<^sup>2 * (1 / cohen_h\<^sup>2)"
    using solve_power_80 [OF d(1)] by simp_all
  have l95: "2 * (16 / 5)\<^sup>2 * (1 / cohen_h\<^sup>2) \<le> ?n95"
    using solve_power_95 [OF d(1)] by simp
  have "0 < ?n80"
  proof -
    have "0 < 2 * (19 / 10)\<^sup>2 * (1 / cohen_h\<^sup>2)"
      using k(1) by simp
    with l80 show ?thesis by linarith
  qed
  then have pos: "0 < \<lceil>?n80\<rceil>" by simp
  have "?n80 + 1 \<le> ?n95"
  proof -
    have "2 * (16 / 5)\<^sup>2 * (1 / cohen_h\<^sup>2) - 2 * 3\<^sup>2 * (1 / cohen_h\<^sup>2)
        = (62 / 25) * (1 / cohen_h\<^sup>2)"
      by (simp add: power_divide algebra_simps)
    moreover have "1 \<le> (62 / 25) * (1 / cohen_h\<^sup>2)"
      using k(2) by linarith
    ultimately show ?thesis using u80 l95 by linarith
  qed
  then have "\<lceil>?n80\<rceil> \<le> \<lceil>?n95 - 1\<rceil>"
    by (intro ceiling_mono) simp
  then have lt: "\<lceil>?n80\<rceil> < \<lceil>?n95\<rceil>"
    by simp
  have e: "(80 / 100 :: real) = 4 / 5" "(95 / 100 :: real) = 19 / 20" by simp_all
  show ?thesis
    unfolding power_analysis_effect e using pos lt by blast
qed

end
